theory Spec2Isabelle
  imports Main "HOL-Library.Sublist"
begin

section \<open>Values, errors and the JavaScript operations the code relies on\<close>

text \<open>
  \<^verbatim>\<open>response.json()\<close> yields an untyped value (\<^verbatim>\<open>any\<close>). It is modelled as the
  value \<^verbatim>\<open>JSON.parse\<close> builds: null, a boolean, a number, a string, an array or an
  object. An object is the list of its own properties with their values, in the order in
  which \<^verbatim>\<open>Object.keys\<close> enumerates them. Numbers are the integers: the only numbers the
  code inspects are counters, and the only operation on them is the truthiness test of
  \<^verbatim>\<open>||\<close>. Strings are lists of characters; the keywords searched for are ASCII.
\<close>

datatype jsval =
    JNull
  | JBool bool
  | JNum int
  | JStr string
  | JArr "jsval list"
  | JObj "(string \<times> jsval) list"

text \<open>
  What a \<^verbatim>\<open>throw\<close> carries: an \<^verbatim>\<open>Error\<close> built by the code with its message, the
  \<^verbatim>\<open>TypeError\<close> the runtime raises on a property read of null or a call of a
  non-function, and whatever \<^verbatim>\<open>fetch\<close> or \<^verbatim>\<open>response.json()\<close> rejects with.
\<close>

datatype js_error =
    Error string
  | TypeError
  | Rejected string

definition bindE :: "js_error + 'a \<Rightarrow> ('a \<Rightarrow> js_error + 'b) \<Rightarrow> js_error + 'b" where
  "bindE r f = (case r of Inl e \<Rightarrow> Inl e | Inr v \<Rightarrow> f v)"

text \<open>\<^verbatim>\<open>a || b\<close> on conditions that may throw: \<^verbatim>\<open>b\<close> is evaluated only if \<^verbatim>\<open>a\<close> is false.\<close>

definition orE :: "js_error + bool \<Rightarrow> js_error + bool \<Rightarrow> js_error + bool" where
  "orE a b = (case a of Inl e \<Rightarrow> Inl e | Inr t \<Rightarrow> if t then Inr True else b)"

text \<open>
  \<^verbatim>\<open>xs.forEach(x => ...)\<close> where the callback updates the variables it closes over:
  the state is passed through, and a throw in the callback ends the loop.
\<close>

fun forEach :: "'a list \<Rightarrow> ('a \<Rightarrow> 's \<Rightarrow> js_error + 's) \<Rightarrow> 's \<Rightarrow> js_error + 's" where
  "forEach [] f s = Inr s"
| "forEach (x # xs) f s = (case f x s of Inl e \<Rightarrow> Inl e | Inr s' \<Rightarrow> forEach xs f s')"

text \<open>\<^verbatim>\<open>xs.map(f)\<close> with a callback that may throw.\<close>

fun mapE :: "('a \<Rightarrow> js_error + 'b) \<Rightarrow> 'a list \<Rightarrow> js_error + 'b list" where
  "mapE f [] = Inr []"
| "mapE f (x # xs) =
     (case f x of Inl e \<Rightarrow> Inl e
      | Inr y \<Rightarrow> (case mapE f xs of Inl e \<Rightarrow> Inl e | Inr ys \<Rightarrow> Inr (y # ys)))"

text \<open>
  \<^verbatim>\<open>v.name\<close> for the fixed property names the code reads (none of them an index,
  \<^verbatim>\<open>length\<close> or a member of a built-in prototype): a read on null throws, a read on an
  object gives the own property or \<^verbatim>\<open>undefined\<close> (\<open>None\<close>), a read on any other value
  gives \<^verbatim>\<open>undefined\<close>.
\<close>

fun get_prop :: "jsval \<Rightarrow> string \<Rightarrow> js_error + jsval option" where
  "get_prop JNull k = Inl TypeError"
| "get_prop (JObj kvs) k = Inr (map_of kvs k)"
| "get_prop v k = Inr None"

text \<open>Truthiness, as tested by \<^verbatim>\<open>if (v)\<close> and \<^verbatim>\<open>v || d\<close>; \<open>None\<close> is \<^verbatim>\<open>undefined\<close>.\<close>

fun truthy :: "jsval \<Rightarrow> bool" where
  "truthy JNull = False"
| "truthy (JBool b) = b"
| "truthy (JNum n) = (n \<noteq> 0)"
| "truthy (JStr s) = (s \<noteq> [])"
| "truthy (JArr xs) = True"
| "truthy (JObj kvs) = True"

definition or_default :: "jsval option \<Rightarrow> jsval \<Rightarrow> jsval" where
  "or_default v d = (case v of None \<Rightarrow> d | Some x \<Rightarrow> if truthy x then x else d)"

text \<open>Decimal digits of an array index, as \<^verbatim>\<open>Object.keys\<close> spells it.\<close>

fun index_key :: "nat \<Rightarrow> string" where
  "index_key n =
     (if n < 10 then [char_of (48 + n)]
      else index_key (n div 10) @ [char_of (48 + n mod 10)])"

text \<open>
  \<^verbatim>\<open>Object.keys(v).forEach(k => ... v[k] ...)\<close>: the own enumerable properties of \<^verbatim>\<open>v\<close>
  with their values, in enumeration order. \<^verbatim>\<open>Object.keys(null)\<close> throws; a boolean or a
  number has no own property; a string has its characters under their indices, an array
  its elements under theirs.
\<close>

fun own_props :: "jsval \<Rightarrow> js_error + (string \<times> jsval) list" where
  "own_props JNull = Inl TypeError"
| "own_props (JBool b) = Inr []"
| "own_props (JNum n) = Inr []"
| "own_props (JStr s) = Inr (map (\<lambda>i. (index_key i, JStr [s ! i])) [0..<length s])"
| "own_props (JArr xs) = Inr (map (\<lambda>i. (index_key i, xs ! i)) [0..<length xs])"
| "own_props (JObj kvs) = Inr kvs"

text \<open>
  \<^verbatim>\<open>s.includes(pat)\<close> on a string: \<^verbatim>\<open>pat\<close> occurs in \<^verbatim>\<open>s\<close> at some position, compared
  character by character (no case folding).
\<close>

fun str_includes :: "string \<Rightarrow> string \<Rightarrow> bool" where
  "str_includes [] pat = (pat = [])"
| "str_includes (c # cs) pat = (prefix pat (c # cs) \<or> str_includes cs pat)"

text \<open>
  \<^verbatim>\<open>log.includes(pat)\<close> on an untyped \<^verbatim>\<open>log\<close>: the substring test on a string, the
  membership test of \<^verbatim>\<open>Array.prototype.includes\<close> on an array; on every other value
  \<^verbatim>\<open>log.includes\<close> is not a function (or \<^verbatim>\<open>log\<close> is null) and the call throws.
\<close>

fun js_includes :: "jsval \<Rightarrow> string \<Rightarrow> js_error + bool" where
  "js_includes (JStr s) pat = Inr (str_includes s pat)"
| "js_includes (JArr xs) pat = Inr (JStr pat \<in> set xs)"
| "js_includes v pat = Inl TypeError"

section \<open>services/api.ts\<close>

text \<open>
  The interfaces of lines 4 to 29, with the values the fields hold at run time (the
  TypeScript types are not checked against the parsed body). \<open>None\<close> is \<^verbatim>\<open>undefined\<close>. The
  field \<^verbatim>\<open>id\<close> of a workflow is \<open>workflow_id\<close> here, and a parameter \<^verbatim>\<open>repoName\<close> is
  \<open>repo\<close>, since a record field is a constant of the theory.
\<close>

definition API_BASE_URL :: string where
  "API_BASE_URL = ''https://devbecons-node-backend-gwfbckg9fbatg9dz.canadacentral-01.azurewebsites.net''"

record Repository =
  repoName :: jsval

record Workflow =
  workflow_id :: "jsval option"
  display_title :: "jsval option"

record WorkflowStats =
  success :: jsval
  failure :: jsval
  progress :: jsval
  cancel :: jsval

record LogEntry =
  message :: jsval
  type :: "string option"
  category :: "string option"

record LogFile =
  name :: string
  logs :: "LogEntry list"

text \<open>
  The response of \<^verbatim>\<open>fetch\<close>: \<^verbatim>\<open>response.ok\<close> and the outcome of \<^verbatim>\<open>response.json()\<close>,
  which rejects when the body is not JSON. The network is a function from the URL to the
  outcome of \<^verbatim>\<open>fetch\<close>, which may itself reject.
\<close>

record response =
  ok :: bool
  json :: "js_error + jsval"

type_synonym fetch = "string \<Rightarrow> js_error + response"

text \<open>The network that answers every request with the response \<open>r\<close>.\<close>

definition answering :: "response \<Rightarrow> fetch" where
  "answering r url = Inr r"

text \<open>The three URLs, as the template literals of lines 34, 56 and 93 build them.\<close>

definition repos_url :: "string \<Rightarrow> string" where
  "repos_url accessToken = API_BASE_URL @ ''/user/repos/'' @ accessToken"

definition workflows_url :: "string \<Rightarrow> string \<Rightarrow> string \<Rightarrow> string" where
  "workflows_url accessToken ownerName repo =
     API_BASE_URL @ ''/user/repos/'' @ accessToken @ ''/'' @ ownerName @ ''/'' @ repo"

definition logs_url :: "string \<Rightarrow> string \<Rightarrow> string \<Rightarrow> string \<Rightarrow> string" where
  "logs_url accessToken ownerName repo workflowId =
     API_BASE_URL @ ''/user/repos/'' @ accessToken @ ''/'' @ ownerName @ ''/'' @ repo
       @ ''/'' @ workflowId @ ''/getLogs''"

subsection \<open>fetchWorkflowLogs\<close>

text \<open>Lines 119 to 126: the type of one log line.\<close>

definition detect_type :: "jsval \<Rightarrow> js_error + string" where
  "detect_type log =
     bindE (orE (js_includes log ''success'') (js_includes log ''completed'')) (\<lambda>s.
       if s then Inr ''success''
       else bindE (orE (js_includes log ''warning'') (js_includes log ''waiting'')) (\<lambda>w.
         if w then Inr ''warning''
         else bindE (orE (js_includes log ''error'') (js_includes log ''failed'')) (\<lambda>e.
           if e then Inr ''error'' else Inr ''info'')))"

text \<open>Lines 117 to 133: the callback of the innermost \<^verbatim>\<open>forEach\<close>, pushing one entry.\<close>

definition process_log :: "string \<Rightarrow> jsval \<Rightarrow> LogEntry list \<Rightarrow> js_error + LogEntry list" where
  "process_log cat log entries =
     bindE (detect_type log) (\<lambda>t.
       Inr (entries @
         [\<lparr>message = log, type = Some t,
           category = (if cat = ''SingleLogs'' then None else Some cat)\<rparr>]))"

text \<open>Lines 113 to 135: one category of a file.\<close>

definition process_category ::
  "string \<times> jsval \<Rightarrow> LogEntry list \<Rightarrow> js_error + LogEntry list" where
  "process_category kv entries =
     (case snd kv of
        JArr ls \<Rightarrow> forEach ls (process_log (fst kv)) entries
      | _ \<Rightarrow> Inr entries)"

text \<open>Lines 108 to 143: one file of a job; a file with no entry is not pushed.\<close>

definition process_file ::
  "string \<Rightarrow> string \<times> jsval \<Rightarrow> LogFile list \<Rightarrow> js_error + LogFile list" where
  "process_file jobName kv logFiles =
     bindE (own_props (snd kv)) (\<lambda>cats.
       bindE (forEach cats process_category []) (\<lambda>entries.
         if length entries > 0
         then Inr (logFiles @ [\<lparr>name = jobName @ ''/'' @ fst kv, logs = entries\<rparr>])
         else Inr logFiles))"

text \<open>Lines 105 to 144: one job.\<close>

definition process_job :: "string \<times> jsval \<Rightarrow> LogFile list \<Rightarrow> js_error + LogFile list" where
  "process_job kv logFiles =
     bindE (own_props (snd kv)) (\<lambda>files. forEach files (process_file (fst kv)) logFiles)"

text \<open>Lines 100 to 147: from the parsed body to the returned list.\<close>

definition normalize :: "jsval \<Rightarrow> js_error + LogFile list" where
  "normalize data =
     bindE (get_prop data ''cleanedLogs'') (\<lambda>cl.
       case cl of
         None \<Rightarrow> Inr []
       | Some c \<Rightarrow>
           if truthy c then bindE (own_props c) (\<lambda>jobs. forEach jobs process_job [])
           else Inr [])"

text \<open>
  The \<^verbatim>\<open>catch\<close> block of each wrapper logs the error and throws it again, so the caller
  sees the error that was raised inside \<^verbatim>\<open>try\<close>.
\<close>

definition fetchWorkflowLogs ::
  "fetch \<Rightarrow> string \<Rightarrow> string \<Rightarrow> string \<Rightarrow> string \<Rightarrow> js_error + LogFile list" where
  "fetchWorkflowLogs fetch accessToken ownerName repo workflowId =
     bindE (fetch (logs_url accessToken ownerName repo workflowId)) (\<lambda>response.
       if \<not> ok response then Inl (Error ''Failed to fetch workflow logs'')
       else bindE (json response) normalize)"

subsection \<open>fetchRepositories\<close>

text \<open>
  \<^verbatim>\<open>v.map(f)\<close> on an untyped \<^verbatim>\<open>v\<close>: \<^verbatim>\<open>Array.prototype.map\<close> on an array; a read of
  \<^verbatim>\<open>map\<close> on \<^verbatim>\<open>undefined\<close> or null throws, and on every other value \<^verbatim>\<open>v.map\<close> is not
  a function, so the call throws.
\<close>

definition call_map :: "jsval option \<Rightarrow> (jsval \<Rightarrow> js_error + 'b) \<Rightarrow> js_error + 'b list" where
  "call_map v f = (case v of Some (JArr xs) \<Rightarrow> mapE f xs | _ \<Rightarrow> Inl TypeError)"

definition fetchRepositories :: "fetch \<Rightarrow> string \<Rightarrow> js_error + Repository list" where
  "fetchRepositories fetch accessToken =
     bindE (fetch (repos_url accessToken)) (\<lambda>response.
       if \<not> ok response then Inl (Error ''Failed to fetch repositories'')
       else bindE (json response) (\<lambda>data.
         bindE (get_prop data ''repoNames'') (\<lambda>repoNames.
           call_map repoNames (\<lambda>n. Inr \<lparr>repoName = n\<rparr>))))"

subsection \<open>fetchWorkflows\<close>

record WorkflowsResult =
  workflows :: "Workflow list"
  stats :: WorkflowStats

text \<open>
  Lines 65 to 68: \<^verbatim>\<open>data.storeLogs?.map(...) || []\<close>. The optional chain stops on
  \<^verbatim>\<open>undefined\<close> and null only; the array \<^verbatim>\<open>map\<close> returns is truthy.
\<close>

definition store_workflows :: "jsval \<Rightarrow> js_error + Workflow list" where
  "store_workflows data =
     bindE (get_prop data ''storeLogs'') (\<lambda>storeLogs.
       case storeLogs of
         None \<Rightarrow> Inr []
       | Some JNull \<Rightarrow> Inr []
       | Some v \<Rightarrow>
           call_map (Some v) (\<lambda>log.
             bindE (get_prop log ''id'') (\<lambda>i.
               bindE (get_prop log ''display_title'') (\<lambda>t.
                 Inr \<lparr>workflow_id = i, display_title = t\<rparr>))))"

text \<open>Lines 70 to 75: the payload spells the last two fields \<^verbatim>\<open>Progress\<close> and \<^verbatim>\<open>Cancel\<close>.\<close>

definition workflow_stats :: "jsval \<Rightarrow> js_error + WorkflowStats" where
  "workflow_stats data =
     bindE (get_prop data ''success'') (\<lambda>s.
       bindE (get_prop data ''failure'') (\<lambda>f.
         bindE (get_prop data ''Progress'') (\<lambda>p.
           bindE (get_prop data ''Cancel'') (\<lambda>c.
             Inr \<lparr>success = or_default s (JNum 0), failure = or_default f (JNum 0),
                  progress = or_default p (JNum 0), cancel = or_default c (JNum 0)\<rparr>))))"

definition fetchWorkflows ::
  "fetch \<Rightarrow> string \<Rightarrow> string \<Rightarrow> string \<Rightarrow> js_error + WorkflowsResult" where
  "fetchWorkflows fetch accessToken ownerName repo =
     bindE (fetch (workflows_url accessToken ownerName repo)) (\<lambda>response.
       if \<not> ok response then Inl (Error ''Failed to fetch workflows'')
       else bindE (json response) (\<lambda>data.
         bindE (store_workflows data) (\<lambda>ws.
           bindE (workflow_stats data) (\<lambda>st.
             Inr \<lparr>workflows = ws, stats = st\<rparr>))))"

section \<open>components/LogViewer.tsx\<close>

text \<open>\<^verbatim>\<open>xs.join(sep)\<close> on strings.\<close>

fun join :: "string \<Rightarrow> string list \<Rightarrow> string" where
  "join sep [] = []"
| "join sep [x] = x"
| "join sep (x # y # ys) = x @ sep @ join sep (y # ys)"

text \<open>
  \<^verbatim>\<open>s.replace(pat, rep)\<close> with a string pattern and a replacement without \<^verbatim>\<open>$\<close>: the
  first occurrence of \<^verbatim>\<open>pat\<close> is replaced, the rest of \<^verbatim>\<open>s\<close> is kept.
\<close>

fun replace :: "string \<Rightarrow> string \<Rightarrow> string \<Rightarrow> string" where
  "replace [] pat rep = (if pat = [] then rep else [])"
| "replace (c # cs) pat rep =
     (if prefix pat (c # cs) then rep @ drop (length pat) (c # cs)
      else c # replace cs pat rep)"

text \<open>What the click on the anchor element hands to the browser.\<close>

record Download =
  content :: string
  blob_type :: string
  download :: string

text \<open>
  \<^verbatim>\<open>downloadLogs\<close> (the same in both versions of the component, where the state variable
  is called \<^verbatim>\<open>activeTab\<close> or \<^verbatim>\<open>activeFile\<close>). It reads the properties \<^verbatim>\<open>repoName\<close>
  and \<^verbatim>\<open>workflowTitle\<close> and the state \<^verbatim>\<open>logFiles\<close> and \<^verbatim>\<open>activeTab\<close>; \<open>None\<close> is a
  return with nothing downloaded. \<^verbatim>\<open>join\<close> converts each message to a string: a string is
  itself, and the conversion of any other value is the parameter \<open>to_string\<close>.
\<close>

definition message_text :: "(jsval \<Rightarrow> js_error + string) \<Rightarrow> LogEntry \<Rightarrow> js_error + string" where
  "message_text to_string log =
     (case message log of JStr s \<Rightarrow> Inr s | v \<Rightarrow> to_string v)"

definition downloadLogs ::
  "(jsval \<Rightarrow> js_error + string) \<Rightarrow> string \<Rightarrow> string \<Rightarrow> LogFile list \<Rightarrow> string
   \<Rightarrow> js_error + Download option" where
  "downloadLogs to_string repo workflowTitle logFiles activeTab =
     (if length logFiles = 0 then Inr None
      else case find (\<lambda>file. name file = activeTab) logFiles of
        None \<Rightarrow> Inr None
      | Some activeFile \<Rightarrow>
          bindE (mapE (message_text to_string) (logs activeFile)) (\<lambda>lines.
            Inr (Some \<lparr>content = join [CHR 0x0A] lines, blob_type = ''text/plain'',
                       download = repo @ ''-'' @ workflowTitle @ ''-''
                                  @ replace activeTab ''/'' ''-'' @ ''.txt''\<rparr>)))"

section \<open>Vocabulary of the properties\<close>

text \<open>
  The network answers the request for \<open>url\<close> with a successful status and a body that
  parses to \<open>data\<close>.
\<close>

definition responds :: "fetch \<Rightarrow> string \<Rightarrow> jsval \<Rightarrow> bool" where
  "responds fetch url data =
     (case fetch url of Inl e \<Rightarrow> False | Inr r \<Rightarrow> ok r \<and> json r = Inr data)"

text \<open>
  A job \<open>\<rightarrow>\<close> file \<open>\<rightarrow>\<close> category map, each level with its keys in enumeration order, and
  the \<^verbatim>\<open>cleanedLogs\<close> value it stands for. A category value is any value.
\<close>

type_synonym categories = "(string \<times> jsval) list"
type_synonym files = "(string \<times> categories) list"
type_synonym jobs = "(string \<times> files) list"

definition cleanedLogs :: "jobs \<Rightarrow> jsval" where
  "cleanedLogs js =
     JObj (map (\<lambda>(j, fs). (j, JObj (map (\<lambda>(f, cs). (f, JObj cs)) fs))) js)"

text \<open>The (job, file) pairs of the map with their categories, in traversal order.\<close>

definition job_files :: "jobs \<Rightarrow> (string \<times> string \<times> categories) list" where
  "job_files js = concat (map (\<lambda>(j, fs). map (\<lambda>(f, cs). (j, f, cs)) fs) js)"

text \<open>The elements of the array-valued categories of a file, in order.\<close>

definition array_lines :: "categories \<Rightarrow> jsval list" where
  "array_lines cs = concat (map (\<lambda>(c, v). case v of JArr ls \<Rightarrow> ls | _ \<Rightarrow> []) cs)"

text \<open>Every element of every array-valued category is a string.\<close>

definition is_string :: "jsval \<Rightarrow> bool" where
  "is_string v = (case v of JStr s \<Rightarrow> True | _ \<Rightarrow> False)"

definition string_lines :: "jobs \<Rightarrow> bool" where
  "string_lines js = list_all (\<lambda>(j, f, cs). list_all is_string (array_lines cs)) (job_files js)"

text \<open>
  A payload of the workflow list: an object whose \<^verbatim>\<open>storeLogs\<close>, when present and not
  null, is an array without null elements.
\<close>

definition workflow_list_payload :: "jsval \<Rightarrow> bool" where
  "workflow_list_payload data =
     (case data of
        JObj kvs \<Rightarrow>
          (case map_of kvs ''storeLogs'' of
             None \<Rightarrow> True
           | Some JNull \<Rightarrow> True
           | Some (JArr ws) \<Rightarrow> JNull \<notin> set ws
           | Some v \<Rightarrow> False)
      | _ \<Rightarrow> False)"

text \<open>
  For each entry position of a file, the key of the category the entry comes from; and
  the sum of the lengths of the array-valued categories of a file.
\<close>

definition source_keys :: "categories \<Rightarrow> string list" where
  "source_keys cs =
     concat (map (\<lambda>(c, v). case v of JArr ls \<Rightarrow> replicate (length ls) c | _ \<Rightarrow> []) cs)"

definition entry_count :: "categories \<Rightarrow> nat" where
  "entry_count cs = sum_list (map (\<lambda>(c, v). case v of JArr ls \<Rightarrow> length ls | _ \<Rightarrow> 0) cs)"

text \<open>The map without the categories whose value is not an array.\<close>

definition is_array :: "jsval \<Rightarrow> bool" where
  "is_array v = (case v of JArr ls \<Rightarrow> True | _ \<Rightarrow> False)"

definition array_categories :: "jobs \<Rightarrow> jobs" where
  "array_categories js =
     map (\<lambda>(j, fs). (j, map (\<lambda>(f, cs). (f, filter (\<lambda>(c, v). is_array v) cs)) fs)) js"

section \<open>The loops as maps\<close>

text \<open>
  Each \<^verbatim>\<open>forEach\<close> callback appends to the array it closes over; what it appends does
  not depend on what the array holds. These functions give what one iteration appends.
\<close>

definition log_entries :: "string \<Rightarrow> jsval \<Rightarrow> js_error + LogEntry list" where
  "log_entries cat log =
     bindE (detect_type log) (\<lambda>t.
       Inr [\<lparr>message = log, type = Some t,
             category = (if cat = ''SingleLogs'' then None else Some cat)\<rparr>])"

definition category_entries :: "string \<times> jsval \<Rightarrow> js_error + LogEntry list" where
  "category_entries kv =
     (case snd kv of
        JArr ls \<Rightarrow> bindE (mapE (log_entries (fst kv)) ls) (\<lambda>yss. Inr (concat yss))
      | _ \<Rightarrow> Inr [])"

definition file_entries :: "jsval \<Rightarrow> js_error + LogEntry list" where
  "file_entries fileData =
     bindE (own_props fileData) (\<lambda>cats.
       bindE (mapE category_entries cats) (\<lambda>yss. Inr (concat yss)))"

definition file_logfiles :: "string \<Rightarrow> string \<times> jsval \<Rightarrow> js_error + LogFile list" where
  "file_logfiles jobName kv =
     bindE (file_entries (snd kv)) (\<lambda>entries.
       Inr (if entries = [] then []
            else [\<lparr>name = jobName @ ''/'' @ fst kv, logs = entries\<rparr>]))"

definition job_logfiles :: "string \<times> jsval \<Rightarrow> js_error + LogFile list" where
  "job_logfiles kv =
     bindE (own_props (snd kv)) (\<lambda>fs.
       bindE (mapE (file_logfiles (fst kv)) fs) (\<lambda>yss. Inr (concat yss)))"

definition cleaned_logfiles :: "jsval \<Rightarrow> js_error + LogFile list" where
  "cleaned_logfiles c =
     bindE (own_props c) (\<lambda>js.
       bindE (mapE job_logfiles js) (\<lambda>yss. Inr (concat yss)))"

text \<open>
  On a job \<open>\<rightarrow>\<close> file \<open>\<rightarrow>\<close> category map the result is a list comprehension: the entry
  of a line, the entries of a file, the files of the map.
\<close>

definition entry_of :: "string \<Rightarrow> jsval \<Rightarrow> LogEntry" where
  "entry_of c l =
     \<lparr>message = l,
      type = (case detect_type l of Inl e \<Rightarrow> None | Inr t \<Rightarrow> Some t),
      category = (if c = ''SingleLogs'' then None else Some c)\<rparr>"

definition entries_of :: "categories \<Rightarrow> LogEntry list" where
  "entries_of cs =
     concat (map (\<lambda>(c, v). case v of JArr ls \<Rightarrow> map (entry_of c) ls | _ \<Rightarrow> []) cs)"

definition logfiles_of :: "jobs \<Rightarrow> LogFile list" where
  "logfiles_of js =
     concat (map (\<lambda>(j, f, cs).
       if entries_of cs = [] then []
       else [\<lparr>name = j @ ''/'' @ f, logs = entries_of cs\<rparr>]) (job_files js))"

text \<open>
  The bodies on which the normalisation returns. \<open>props\<close> is the list \<^verbatim>\<open>Object.keys\<close>
  enumerates, with the values, of a value that is not null; a value has \<^verbatim>\<open>includes\<close> when
  it is a string or an array. A category is in order when it is not an array or all its
  elements have \<^verbatim>\<open>includes\<close>, a file when it is not null and its categories are in order,
  a job when it is not null and its files are in order, a body when it is not null and the
  jobs of a truthy \<^verbatim>\<open>cleanedLogs\<close> are in order.
\<close>

definition has_includes :: "jsval \<Rightarrow> bool" where
  "has_includes v = (case v of JStr s \<Rightarrow> True | JArr xs \<Rightarrow> True | _ \<Rightarrow> False)"

definition props :: "jsval \<Rightarrow> (string \<times> jsval) list" where
  "props v = (case own_props v of Inl e \<Rightarrow> [] | Inr kvs \<Rightarrow> kvs)"

definition lines_ok :: "jsval \<Rightarrow> bool" where
  "lines_ok v = (case v of JArr ls \<Rightarrow> list_all has_includes ls | _ \<Rightarrow> True)"

definition file_ok :: "jsval \<Rightarrow> bool" where
  "file_ok v = (v \<noteq> JNull \<and> list_all (\<lambda>(c, x). lines_ok x) (props v))"

definition job_ok :: "jsval \<Rightarrow> bool" where
  "job_ok v = (v \<noteq> JNull \<and> list_all (\<lambda>(f, x). file_ok x) (props v))"

definition payload_ok :: "jsval \<Rightarrow> bool" where
  "payload_ok data =
     (data \<noteq> JNull \<and>
      (case get_prop data ''cleanedLogs'' of
         Inr (Some c) \<Rightarrow> truthy c \<longrightarrow> list_all (\<lambda>(j, x). job_ok x) (props c)
       | _ \<Rightarrow> True))"

text \<open>The files of a body: one for each file of each job that has an entry.\<close>

definition file_logfile :: "string \<Rightarrow> string \<Rightarrow> jsval \<Rightarrow> LogFile list" where
  "file_logfile j f fv =
     (if entries_of (props fv) = [] then []
      else [\<lparr>name = j @ ''/'' @ f, logs = entries_of (props fv)\<rparr>])"

definition payload_logfiles :: "jsval \<Rightarrow> LogFile list" where
  "payload_logfiles data =
     (case get_prop data ''cleanedLogs'' of
        Inr (Some c) \<Rightarrow>
          if truthy c
          then concat (map (\<lambda>(j, jv). concat (map (\<lambda>(f, fv). file_logfile j f fv) (props jv)))
                 (props c))
          else []
      | _ \<Rightarrow> [])"

section \<open>The classification as the specification words it\<close>

text \<open>
  The specification classifies the lowercase form of the line. \<open>spec_type\<close> follows its
  words: the same keywords in the same order, searched in the line folded to lower case.
\<close>

definition lower_char :: "char \<Rightarrow> char" where
  "lower_char c =
     (case map_of (zip ''ABCDEFGHIJKLMNOPQRSTUVWXYZ'' ''abcdefghijklmnopqrstuvwxyz'') c of
        None \<Rightarrow> c
      | Some l \<Rightarrow> l)"

definition spec_type :: "string \<Rightarrow> string" where
  "spec_type line =
     (let l = map lower_char line in
      if sublist ''success'' l \<or> sublist ''completed'' l then ''success''
      else if sublist ''warning'' l \<or> sublist ''waiting'' l then ''warning''
      else if sublist ''error'' l \<or> sublist ''failed'' l then ''error''
      else ''info'')"

text \<open>
  The name of a downloaded file as the specification words it: every \<^verbatim>\<open>/\<close> of the file
  name replaced by \<^verbatim>\<open>-\<close>.
\<close>

definition spec_download_name :: "string \<Rightarrow> string \<Rightarrow> string \<Rightarrow> string" where
  "spec_download_name repo workflowTitle fileName =
     repo @ ''-'' @ workflowTitle @ ''-''
       @ map (\<lambda>c. if c = CHR ''/'' then CHR ''-'' else c) fileName @ ''.txt''"

section \<open>A worked example\<close>

text \<open>
  Two jobs. The job \<^verbatim>\<open>build\<close> has a file with two array-valued categories and one
  category that is a number, and a file whose only category is an empty array; the job
  \<^verbatim>\<open>deploy\<close> has no file.
\<close>

definition example_jobs :: jobs where
  "example_jobs =
     [(''build'',
        [(''1_run.txt'',
           [(''SingleLogs'', JArr [JStr ''Starting job'', JStr ''Task completed'']),
            (''Run tests'', JArr [JStr ''Step failed'']),
            (''annotations'', JNum 2)]),
         (''2_skipped.txt'', [(''SingleLogs'', JArr [])])]),
      (''deploy'', [])]"

definition example_body :: jsval where
  "example_body = JObj [(''cleanedLogs'', cleanedLogs example_jobs)]"

definition example_fetch :: fetch where
  "example_fetch = answering \<lparr>ok = True, json = Inr example_body\<rparr>"

section \<open>Auxiliary facts\<close>

lemma answering_apply [simp]: "answering r url = Inr r"
  by (simp add: answering_def)

lemma bindE_Inl: "bindE (Inl e) f = Inl e"
  by (simp add: bindE_def)

lemma bindE_Inr: "bindE (Inr v) f = f v"
  by (simp add: bindE_def)

lemma bindE_eq_Inr: "bindE r f = Inr y \<longleftrightarrow> (\<exists>v. r = Inr v \<and> f v = Inr y)"
  by (cases r) (simp_all add: bindE_def)

lemma str_includes_sublist: "str_includes s pat = sublist pat s"
  by (induction s) (simp_all add: sublist_Cons_right)

lemma detect_type_JStr:
  "detect_type (JStr s) =
     Inr (if sublist ''success'' s \<or> sublist ''completed'' s then ''success''
          else if sublist ''warning'' s \<or> sublist ''waiting'' s then ''warning''
          else if sublist ''error'' s \<or> sublist ''failed'' s then ''error''
          else ''info'')"
  by (simp add: detect_type_def bindE_def orE_def str_includes_sublist)

lemma detect_type_JArr:
  "detect_type (JArr xs) =
     Inr (if JStr ''success'' \<in> set xs \<or> JStr ''completed'' \<in> set xs then ''success''
          else if JStr ''warning'' \<in> set xs \<or> JStr ''waiting'' \<in> set xs then ''warning''
          else if JStr ''error'' \<in> set xs \<or> JStr ''failed'' \<in> set xs then ''error''
          else ''info'')"
  by (simp add: detect_type_def bindE_def orE_def)

lemma detect_type_range:
  "detect_type l = Inr t \<Longrightarrow> t \<in> {''info'', ''success'', ''warning'', ''error''}"
  by (cases l) (auto simp: detect_type_JStr detect_type_JArr detect_type_def bindE_def orE_def split: if_splits)

lemma detect_type_error:
  "detect_type l = Inl e \<longleftrightarrow> e = TypeError \<and> (\<forall>s. l \<noteq> JStr s) \<and> (\<forall>xs. l \<noteq> JArr xs)"
  by (cases l) (auto simp: detect_type_JStr detect_type_JArr detect_type_def bindE_def orE_def)

lemma forEach_mapE:
  "(\<And>x s. x \<in> set xs \<Longrightarrow> f x s = bindE (h x) (\<lambda>ys. Inr (s @ ys))) \<Longrightarrow>
   forEach xs f s = bindE (mapE h xs) (\<lambda>yss. Inr (s @ concat yss))"
proof (induction xs arbitrary: s)
  case Nil
  then show ?case by (simp add: bindE_def)
next
  case (Cons x xs)
  have step: "f x s = bindE (h x) (\<lambda>ys. Inr (s @ ys))"
    using Cons.prems by simp
  show ?case
  proof (cases "h x")
    case (Inl e)
    then show ?thesis using step by (simp add: bindE_def)
  next
    case (Inr ys)
    have "forEach xs f (s @ ys) = bindE (mapE h xs) (\<lambda>yss. Inr ((s @ ys) @ concat yss))"
      using Cons.IH [of "s @ ys"] Cons.prems by simp
    then show ?thesis using step Inr
      by (cases "mapE h xs") (simp_all add: bindE_def)
  qed
qed

lemma mapE_total:
  "(\<And>x. x \<in> set xs \<Longrightarrow> f x = Inr (g x)) \<Longrightarrow> mapE f xs = Inr (map g xs)"
  by (induction xs) simp_all

lemma mapE_all:
  "mapE f xs = Inr yss \<Longrightarrow>
   (\<And>x ys. x \<in> set xs \<Longrightarrow> f x = Inr ys \<Longrightarrow> \<forall>e\<in>set ys. P e) \<Longrightarrow>
   \<forall>e\<in>set (concat yss). P e"
proof (induction xs arbitrary: yss)
  case Nil
  then show ?case by simp
next
  case (Cons x xs)
  from Cons.prems(1) obtain y ys where y: "f x = Inr y" and ys: "mapE f xs = Inr ys"
    and yss: "yss = y # ys"
    by (auto split: sum.splits)
  have "\<forall>e\<in>set y. P e" using Cons.prems(2) [of x y] y by simp
  moreover have "\<forall>e\<in>set (concat ys). P e"
  proof (rule Cons.IH [OF ys])
    fix x' ys' assume "x' \<in> set xs" "f x' = Inr ys'"
    then show "\<forall>e\<in>set ys'. P e" using Cons.prems(2) [of x' ys'] by simp
  qed
  ultimately show ?case using yss by auto
qed

lemma mapE_Inl_iff: "(\<exists>e. mapE f xs = Inl e) \<longleftrightarrow> (\<exists>x\<in>set xs. \<exists>e. f x = Inl e)"
  by (induction xs) (auto split: sum.splits)


lemma process_log_view:
  "process_log c l es = bindE (log_entries c l) (\<lambda>ys. Inr (es @ ys))"
  by (cases "detect_type l") (simp_all add: process_log_def log_entries_def bindE_def)

lemma process_category_view:
  "process_category kv es = bindE (category_entries kv) (\<lambda>ys. Inr (es @ ys))"
proof (cases "snd kv")
  case (JArr ls)
  have "forEach ls (process_log (fst kv)) es =
        bindE (mapE (log_entries (fst kv)) ls) (\<lambda>yss. Inr (es @ concat yss))"
    by (rule forEach_mapE) (rule process_log_view)
  then show ?thesis using JArr
    by (cases "mapE (log_entries (fst kv)) ls")
       (simp_all add: process_category_def category_entries_def bindE_def)
qed (simp_all add: process_category_def category_entries_def bindE_def)

lemma process_file_view:
  "process_file j kv lfs = bindE (file_logfiles j kv) (\<lambda>ys. Inr (lfs @ ys))"
proof (cases "own_props (snd kv)")
  case (Inl e)
  then show ?thesis
    by (simp add: process_file_def file_logfiles_def file_entries_def bindE_def)
next
  case (Inr cats)
  have "forEach cats process_category [] =
        bindE (mapE category_entries cats) (\<lambda>yss. Inr ([] @ concat yss))"
    by (rule forEach_mapE) (rule process_category_view)
  then show ?thesis using Inr
    by (cases "mapE category_entries cats")
       (simp_all add: process_file_def file_logfiles_def file_entries_def bindE_def)
qed

lemma process_job_view:
  "process_job kv lfs = bindE (job_logfiles kv) (\<lambda>ys. Inr (lfs @ ys))"
proof (cases "own_props (snd kv)")
  case (Inl e)
  then show ?thesis by (simp add: process_job_def job_logfiles_def bindE_def)
next
  case (Inr fs)
  have "forEach fs (process_file (fst kv)) lfs =
        bindE (mapE (file_logfiles (fst kv)) fs) (\<lambda>yss. Inr (lfs @ concat yss))"
    by (rule forEach_mapE) (rule process_file_view)
  then show ?thesis using Inr
    by (cases "mapE (file_logfiles (fst kv)) fs")
       (simp_all add: process_job_def job_logfiles_def bindE_def)
qed

lemma forEach_process_job: "forEach js process_job [] = bindE (mapE job_logfiles js) (\<lambda>yss. Inr (concat yss))"
proof -
  have "forEach js process_job [] = bindE (mapE job_logfiles js) (\<lambda>yss. Inr ([] @ concat yss))"
    by (rule forEach_mapE) (rule process_job_view)
  then show ?thesis by simp
qed

lemma normalize_view:
  "normalize data =
     bindE (get_prop data ''cleanedLogs'') (\<lambda>cl.
       case cl of None \<Rightarrow> Inr []
       | Some c \<Rightarrow> if truthy c then cleaned_logfiles c else Inr [])"
  by (simp add: normalize_def cleaned_logfiles_def forEach_process_job
        cong: option.case_cong if_cong)

lemma fetchWorkflowLogs_responds:
  "responds fetch (logs_url tok owner repo wid) data \<Longrightarrow>
   fetchWorkflowLogs fetch tok owner repo wid = normalize data"
  by (auto simp: responds_def fetchWorkflowLogs_def bindE_def split: sum.splits)

lemma concat_Inr_all:
  "bindE (mapE f xs) (\<lambda>yss. Inr (concat yss)) = Inr ys \<Longrightarrow>
   (\<And>x zs. x \<in> set xs \<Longrightarrow> f x = Inr zs \<Longrightarrow> \<forall>e\<in>set zs. P e) \<Longrightarrow>
   \<forall>e\<in>set ys. P e"
  using mapE_all [of f xs _ P] by (auto simp: bindE_eq_Inr)

lemma category_entries_all:
  assumes "category_entries kv = Inr es"
    and "\<And>l t. detect_type l = Inr t \<Longrightarrow>
           P \<lparr>message = l, type = Some t,
              category = (if fst kv = ''SingleLogs'' then None else Some (fst kv))\<rparr>"
  shows "\<forall>e\<in>set es. P e"
proof (cases "snd kv")
  case (JArr ls)
  then have "bindE (mapE (log_entries (fst kv)) ls) (\<lambda>yss. Inr (concat yss)) = Inr es"
    using assms(1) by (simp add: category_entries_def)
  then show ?thesis
  proof (rule concat_Inr_all)
    fix l zs assume "log_entries (fst kv) l = Inr zs"
    then show "\<forall>e\<in>set zs. P e"
      using assms(2) by (auto simp: log_entries_def bindE_eq_Inr)
  qed
qed (use assms(1) in \<open>auto simp: category_entries_def\<close>)

lemma file_entries_all:
  assumes "file_entries v = Inr es"
    and "\<And>c l t. detect_type l = Inr t \<Longrightarrow>
           P \<lparr>message = l, type = Some t,
              category = (if c = ''SingleLogs'' then None else Some c)\<rparr>"
  shows "\<forall>e\<in>set es. P e"
proof -
  from assms(1) obtain cats where
    "bindE (mapE category_entries cats) (\<lambda>yss. Inr (concat yss)) = Inr es"
    by (auto simp: file_entries_def bindE_eq_Inr)
  then show ?thesis
  proof (rule concat_Inr_all)
    fix kv zs assume "category_entries kv = Inr zs"
    then show "\<forall>e\<in>set zs. P e"
      by (rule category_entries_all) (rule assms(2))
  qed
qed

lemma cleaned_logfiles_all:
  assumes "cleaned_logfiles v = Inr lfs"
    and "\<And>c l t. detect_type l = Inr t \<Longrightarrow>
           P \<lparr>message = l, type = Some t,
              category = (if c = ''SingleLogs'' then None else Some c)\<rparr>"
  shows "\<forall>lf\<in>set lfs. \<forall>e\<in>set (logs lf). P e"
proof -
  from assms(1) obtain js where
    "bindE (mapE job_logfiles js) (\<lambda>yss. Inr (concat yss)) = Inr lfs"
    by (auto simp: cleaned_logfiles_def bindE_eq_Inr)
  then show ?thesis
  proof (rule concat_Inr_all)
    fix jkv zs assume "job_logfiles jkv = Inr zs"
    then obtain fs where
      "bindE (mapE (file_logfiles (fst jkv)) fs) (\<lambda>yss. Inr (concat yss)) = Inr zs"
      by (auto simp: job_logfiles_def bindE_eq_Inr)
    then show "\<forall>lf\<in>set zs. \<forall>e\<in>set (logs lf). P e"
    proof (rule concat_Inr_all)
      fix fkv ws assume "file_logfiles (fst jkv) fkv = Inr ws"
      then obtain es where es: "file_entries (snd fkv) = Inr es"
        and ws: "ws = (if es = [] then [] else [\<lparr>name = fst jkv @ ''/'' @ fst fkv, logs = es\<rparr>])"
        by (auto simp: file_logfiles_def bindE_eq_Inr)
      have "\<forall>e\<in>set es. P e"
        using es by (rule file_entries_all) (rule assms(2))
      then show "\<forall>lf\<in>set ws. \<forall>e\<in>set (logs lf). P e"
        using ws by simp
    qed
  qed
qed

lemma normalize_all:
  assumes "normalize data = Inr lfs"
    and "\<And>c l t. detect_type l = Inr t \<Longrightarrow>
           P \<lparr>message = l, type = Some t,
              category = (if c = ''SingleLogs'' then None else Some c)\<rparr>"
  shows "\<forall>lf\<in>set lfs. \<forall>e\<in>set (logs lf). P e"
proof -
  from assms(1) consider "lfs = []" | c where "cleaned_logfiles c = Inr lfs"
    by (auto simp: normalize_view bindE_eq_Inr split: option.splits if_splits)
  then show ?thesis
  proof cases
    case 1
    then show ?thesis by simp
  next
    case 2
    then show ?thesis by (rule cleaned_logfiles_all) (rule assms(2))
  qed
qed



lemmas eval_defs = fetchWorkflowLogs_def normalize_def process_job_def process_file_def
  process_category_def process_log_def detect_type_def bindE_def orE_def logs_url_def

lemma fetchWorkflowLogs_Inr:
  "fetchWorkflowLogs fetch tok owner repo wid = Inr lfs \<Longrightarrow> \<exists>data. normalize data = Inr lfs"
  by (auto simp: fetchWorkflowLogs_def bindE_eq_Inr split: if_splits)

lemma responds_fetch:
  "responds fetch url data \<Longrightarrow> \<exists>r. fetch url = Inr r \<and> ok r \<and> json r = Inr data"
  by (cases "fetch url") (simp_all add: responds_def)

lemma fetchRepositories_responds:
  "responds fetch (repos_url tok) data \<Longrightarrow>
   fetchRepositories fetch tok =
     bindE (get_prop data ''repoNames'') (\<lambda>repoNames.
       call_map repoNames (\<lambda>n. Inr \<lparr>repoName = n\<rparr>))"
  by (auto simp: fetchRepositories_def bindE_def dest!: responds_fetch)

lemma fetchWorkflows_responds:
  "responds fetch (workflows_url tok owner repo) data \<Longrightarrow>
   fetchWorkflows fetch tok owner repo =
     bindE (store_workflows data) (\<lambda>ws.
       bindE (workflow_stats data) (\<lambda>st. Inr \<lparr>workflows = ws, stats = st\<rparr>))"
  by (auto simp: fetchWorkflows_def bindE_def dest!: responds_fetch)

lemma map_wrap: "mapE (\<lambda>n. Inr (f n)) xs = Inr (map f xs)"
  by (induction xs) simp_all

lemma store_workflows_payload:
  "workflow_list_payload data \<Longrightarrow> \<exists>ws. store_workflows data = Inr ws"
proof -
  assume p: "workflow_list_payload data"
  then obtain kvs where d: "data = JObj kvs"
    by (auto simp: workflow_list_payload_def split: jsval.splits)
  show ?thesis
  proof (cases "map_of kvs ''storeLogs''")
    case None
    then show ?thesis using d by (simp add: store_workflows_def bindE_def)
  next
    case (Some v)
    show ?thesis
    proof (cases v)
      case (JArr ws)
      then have nn: "JNull \<notin> set ws"
        using p d Some by (simp add: workflow_list_payload_def)
      have "mapE (\<lambda>log. bindE (get_prop log ''id'') (\<lambda>i.
               bindE (get_prop log ''display_title'') (\<lambda>t.
                 Inr \<lparr>workflow_id = i, display_title = t\<rparr>))) ws
            = Inr (map (\<lambda>log. \<lparr>workflow_id = projr (get_prop log ''id''),
                         display_title = projr (get_prop log ''display_title'')\<rparr>) ws)"
      proof (rule mapE_total)
        fix x assume "x \<in> set ws"
        then have "x \<noteq> JNull" using nn by auto
        then show "bindE (get_prop x ''id'') (\<lambda>i.
               bindE (get_prop x ''display_title'') (\<lambda>t.
                 Inr \<lparr>workflow_id = i, display_title = t\<rparr>))
             = Inr \<lparr>workflow_id = projr (get_prop x ''id''),
                         display_title = projr (get_prop x ''display_title'')\<rparr>"
          by (cases x) (simp_all add: bindE_def)
      qed
      then show ?thesis using d Some JArr
        by (simp add: store_workflows_def bindE_def call_map_def)
    qed (use p d Some in \<open>simp_all add: workflow_list_payload_def store_workflows_def bindE_def\<close>)
  qed
qed

lemma log_entries_string:
  "is_string l \<Longrightarrow> log_entries c l = Inr [entry_of c l]"
  by (cases l) (simp_all add: is_string_def log_entries_def entry_of_def detect_type_JStr bindE_def)

lemma array_lines_Cons:
  "array_lines ((c, v) # cs) = (case v of JArr ls \<Rightarrow> ls | _ \<Rightarrow> []) @ array_lines cs"
  by (simp add: array_lines_def)

lemma category_entries_string:
  assumes "list_all is_string (case v of JArr ls \<Rightarrow> ls | _ \<Rightarrow> [])"
  shows "category_entries (c, v) =
         Inr (case v of JArr ls \<Rightarrow> map (entry_of c) ls | _ \<Rightarrow> [])"
proof (cases v)
  case (JArr ls)
  have "mapE (log_entries c) ls = Inr (map (\<lambda>l. [entry_of c l]) ls)"
  proof (rule mapE_total)
    fix l assume "l \<in> set ls"
    then have "is_string l" using assms JArr by (simp add: list_all_iff)
    then show "log_entries c l = Inr [entry_of c l]" by (rule log_entries_string)
  qed
  moreover have "concat (map (\<lambda>l. [entry_of c l]) ls) = map (entry_of c) ls"
    by (induction ls) simp_all
  ultimately show ?thesis using JArr by (simp add: category_entries_def bindE_def)
qed (simp_all add: category_entries_def)

lemma file_entries_string:
  assumes "list_all is_string (array_lines cs)"
  shows "file_entries (JObj cs) = Inr (entries_of cs)"
proof -
  have "mapE category_entries cs =
        Inr (map (\<lambda>(c, v). case v of JArr ls \<Rightarrow> map (entry_of c) ls | _ \<Rightarrow> []) cs)"
  proof (rule mapE_total)
    fix kv assume kv: "kv \<in> set cs"
    obtain c v where cv: "kv = (c, v)" by (cases kv)
    have "list_all is_string (case v of JArr ls \<Rightarrow> ls | _ \<Rightarrow> [])"
      using assms kv cv by (force simp: array_lines_def list_all_iff)
    then show "category_entries kv =
        Inr ((\<lambda>(c, v). case v of JArr ls \<Rightarrow> map (entry_of c) ls | _ \<Rightarrow> []) kv)"
      using cv by (simp add: category_entries_string)
  qed
  then show ?thesis by (simp add: file_entries_def entries_of_def bindE_def)
qed

lemma file_logfiles_string:
  "list_all is_string (array_lines cs) \<Longrightarrow>
   file_logfiles j (f, JObj cs) =
     Inr (if entries_of cs = [] then []
          else [\<lparr>name = j @ ''/'' @ f, logs = entries_of cs\<rparr>])"
  by (simp add: file_logfiles_def file_entries_string bindE_def)

lemma job_files_Cons:
  "job_files ((j, fs) # js) = map (\<lambda>(f, cs). (j, f, cs)) fs @ job_files js"
  by (simp add: job_files_def)

lemma job_logfiles_string:
  assumes "list_all (\<lambda>(f, cs). list_all is_string (array_lines cs)) fs"
  shows "job_logfiles (j, JObj (map (\<lambda>(f, cs). (f, JObj cs)) fs)) =
         Inr (concat (map (\<lambda>(f, cs).
                if entries_of cs = [] then []
                else [\<lparr>name = j @ ''/'' @ f, logs = entries_of cs\<rparr>]) fs))"
proof -
  have "mapE (file_logfiles j) (map (\<lambda>(f, cs). (f, JObj cs)) fs) =
        Inr (map (\<lambda>kv. if entries_of (snd kv) = [] then []
                else [\<lparr>name = j @ ''/'' @ fst kv, logs = entries_of (snd kv)\<rparr>]) fs)"
    using assms
  proof (induction fs)
    case Nil
    then show ?case by simp
  next
    case (Cons kv fs)
    obtain f cs where kv: "kv = (f, cs)" by (cases kv)
    have "list_all is_string (array_lines cs)" using Cons.prems kv by simp
    then show ?case using Cons kv by (simp add: file_logfiles_string)
  qed
  then show ?thesis by (simp add: job_logfiles_def bindE_def case_prod_unfold)
qed

lemma string_lines_Cons:
  "string_lines ((j, fs) # js) \<longleftrightarrow>
     list_all (\<lambda>(f, cs). list_all is_string (array_lines cs)) fs \<and> string_lines js"
  by (simp add: string_lines_def job_files_Cons list_all_iff case_prod_beta Ball_def) blast

lemma logfiles_of_Cons:
  "logfiles_of ((j, fs) # js) =
     concat (map (\<lambda>(f, cs).
                if entries_of cs = [] then []
                else [\<lparr>name = j @ ''/'' @ f, logs = entries_of cs\<rparr>]) fs) @ logfiles_of js"
  by (simp add: logfiles_of_def job_files_Cons map_concat comp_def case_prod_unfold cong: if_cong)

lemma mapE_job_logfiles_string:
  "string_lines js \<Longrightarrow>
   bindE (mapE job_logfiles (map (\<lambda>(j, fs). (j, JObj (map (\<lambda>(f, cs). (f, JObj cs)) fs))) js))
     (\<lambda>yss. Inr (concat yss)) = Inr (logfiles_of js)"
proof (induction js)
  case Nil
  then show ?case by (simp add: bindE_def logfiles_of_def job_files_def)
next
  case (Cons jf js)
  obtain j fs where jf: "jf = (j, fs)" by (cases jf)
  have fs: "list_all (\<lambda>(f, cs). list_all is_string (array_lines cs)) fs"
    and js: "string_lines js"
    using Cons.prems jf by (simp_all add: string_lines_Cons)
  from Cons.IH [OF js] obtain yss where
    yss: "mapE job_logfiles (map (\<lambda>(j, fs). (j, JObj (map (\<lambda>(f, cs). (f, JObj cs)) fs))) js) = Inr yss"
    and c: "concat yss = logfiles_of js"
    by (auto simp: bindE_eq_Inr)
  show ?case
    using jf yss c by (simp add: job_logfiles_string [OF fs] bindE_def logfiles_of_Cons)
qed

lemma cleaned_logfiles_string:
  "string_lines js \<Longrightarrow> cleaned_logfiles (cleanedLogs js) = Inr (logfiles_of js)"
  using mapE_job_logfiles_string [of js]
  by (simp add: cleaned_logfiles_def cleanedLogs_def bindE_def)

lemma normalize_string:
  "string_lines js \<Longrightarrow> get_prop data ''cleanedLogs'' = Inr (Some (cleanedLogs js)) \<Longrightarrow>
   normalize data = Inr (logfiles_of js)"
  by (simp add: normalize_view bindE_def cleaned_logfiles_string) (simp add: cleanedLogs_def)

lemma message_entries_of: "map message (entries_of cs) = array_lines cs"
proof (induction cs)
  case Nil
  then show ?case by (simp add: entries_of_def array_lines_def)
next
  case (Cons kv cs)
  obtain c v where kv: "kv = (c, v)" by (cases kv)
  have "map message (case v of JArr ls \<Rightarrow> map (entry_of c) ls | _ \<Rightarrow> []) =
        (case v of JArr ls \<Rightarrow> ls | _ \<Rightarrow> [])"
    by (cases v) (simp_all add: entry_of_def comp_def)
  then show ?case using Cons kv
    by (simp add: entries_of_def array_lines_def)
qed

lemma category_entries_of:
  "map category (entries_of cs) =
   map (\<lambda>c. if c = ''SingleLogs'' then None else Some c) (source_keys cs)"
proof (induction cs)
  case Nil
  then show ?case by (simp add: entries_of_def source_keys_def)
next
  case (Cons kv cs)
  obtain c v where kv: "kv = (c, v)" by (cases kv)
  have "map category (case v of JArr ls \<Rightarrow> map (entry_of c) ls | _ \<Rightarrow> []) =
        map (\<lambda>c. if c = ''SingleLogs'' then None else Some c)
          (case v of JArr ls \<Rightarrow> replicate (length ls) c | _ \<Rightarrow> [])"
    by (cases v) (simp_all add: entry_of_def comp_def map_replicate_const)
  then show ?case using Cons kv
    by (simp add: entries_of_def source_keys_def)
qed

lemma length_array_lines: "length (array_lines cs) = entry_count cs"
proof (induction cs)
  case Nil
  then show ?case by (simp add: array_lines_def entry_count_def)
next
  case (Cons kv cs)
  obtain c v where kv: "kv = (c, v)" by (cases kv)
  show ?case using Cons kv
    by (cases v) (simp_all add: array_lines_def entry_count_def)
qed

lemma entries_of_Nil: "entries_of cs = [] \<longleftrightarrow> array_lines cs = []"
  using message_entries_of [of cs] by (metis map_is_Nil_conv)

lemma concat_optional:
  "concat (map (\<lambda>x. if P x then [] else [h x]) xs) = map h (filter (\<lambda>x. \<not> P x) xs)"
  by (induction xs) simp_all

lemma logfiles_of_filter:
  "logfiles_of js =
     map (\<lambda>(j, f, cs). \<lparr>name = j @ ''/'' @ f, logs = entries_of cs\<rparr>)
       (filter (\<lambda>(j, f, cs). array_lines cs \<noteq> []) (job_files js))"
proof -
  have "logfiles_of js =
        concat (map (\<lambda>x. if entries_of (snd (snd x)) = [] then []
                  else [(\<lambda>(j, f, cs). \<lparr>name = j @ ''/'' @ f, logs = entries_of cs\<rparr>) x])
                (job_files js))"
    by (simp add: logfiles_of_def case_prod_unfold cong: if_cong)
  also have "\<dots> = map (\<lambda>(j, f, cs). \<lparr>name = j @ ''/'' @ f, logs = entries_of cs\<rparr>)
       (filter (\<lambda>x. \<not> entries_of (snd (snd x)) = []) (job_files js))"
    by (rule concat_optional)
  finally show ?thesis by (simp add: entries_of_Nil case_prod_unfold)
qed

lemma list_all2_map_same:
  "(\<And>x. x \<in> set xs \<Longrightarrow> P (f x) x) \<Longrightarrow> list_all2 P (map f xs) xs"
  by (induction xs) simp_all

lemma fetchWorkflowLogs_string:
  assumes "responds fetch (logs_url tok owner repo wid) data"
    and "get_prop data ''cleanedLogs'' = Inr (Some (cleanedLogs js))"
    and "string_lines js"
  shows "fetchWorkflowLogs fetch tok owner repo wid = Inr (logfiles_of js)"
  using assms by (simp add: fetchWorkflowLogs_responds normalize_string)

lemma array_lines_filter:
  "array_lines (filter (\<lambda>(c, v). is_array v) cs) = array_lines cs"
proof (induction cs)
  case Nil
  then show ?case by simp
next
  case (Cons kv cs)
  obtain c v where kv: "kv = (c, v)" by (cases kv)
  show ?case using Cons kv
    by (cases v) (simp_all add: array_lines_def is_array_def)
qed

lemma entries_of_filter:
  "entries_of (filter (\<lambda>(c, v). is_array v) cs) = entries_of cs"
proof (induction cs)
  case Nil
  then show ?case by simp
next
  case (Cons kv cs)
  obtain c v where kv: "kv = (c, v)" by (cases kv)
  show ?case using Cons kv
    by (cases v) (simp_all add: entries_of_def is_array_def)
qed

lemma job_files_array_categories:
  "job_files (array_categories js) =
   map (\<lambda>(j, f, cs). (j, f, filter (\<lambda>(c, v). is_array v) cs)) (job_files js)"
  by (induction js) (auto simp: job_files_def array_categories_def)

lemma logfiles_of_array_categories: "logfiles_of (array_categories js) = logfiles_of js"
  by (simp add: logfiles_of_def job_files_array_categories comp_def case_prod_unfold
        entries_of_filter [unfolded case_prod_unfold] cong: if_cong)

lemma string_lines_array_categories: "string_lines js \<Longrightarrow> string_lines (array_categories js)"
  by (simp add: string_lines_def job_files_array_categories list_all_iff case_prod_unfold
        array_lines_filter [unfolded case_prod_unfold])

lemma example_responds:
  "responds example_fetch (logs_url ''token'' ''owner'' ''repo'' ''42'') example_body"
  by (simp add: responds_def example_fetch_def)

lemma example_cleanedLogs:
  "get_prop example_body ''cleanedLogs'' = Inr (Some (cleanedLogs example_jobs))"
  by (simp add: example_body_def)

lemma example_string_lines: "string_lines example_jobs"
  by (simp add: string_lines_def example_jobs_def job_files_def array_lines_def is_string_def)

lemma example_job_files:
  "job_files example_jobs =
     [(''build'', ''1_run.txt'',
         [(''SingleLogs'', JArr [JStr ''Starting job'', JStr ''Task completed'']),
          (''Run tests'', JArr [JStr ''Step failed'']),
          (''annotations'', JNum 2)]),
      (''build'', ''2_skipped.txt'', [(''SingleLogs'', JArr [])])]"
  by (simp add: example_jobs_def job_files_def)

lemma notin_map: "(\<forall>e\<in>set xs. f e \<noteq> v) \<Longrightarrow> v \<notin> set (map f xs)"
  by (induction xs) auto

lemma list_all2_single: "list_all2 P xs [y] \<Longrightarrow> \<exists>x. xs = [x] \<and> P x y"
  by (cases xs) auto

lemma own_props_cases: "own_props v = (if v = JNull then Inl TypeError else Inr (props v))"
  by (cases v) (simp_all add: props_def)

lemma mapE_cases:
  "(\<And>x. x \<in> set xs \<Longrightarrow> f x = (if ok' x then Inr (g x) else Inl e)) \<Longrightarrow>
   mapE f xs = (if list_all ok' xs then Inr (map g xs) else Inl e)"
  by (induction xs) (simp_all split: if_splits)

lemma log_entries_cases:
  "log_entries c l = (if has_includes l then Inr [entry_of c l] else Inl TypeError)"
  by (cases l)
     (simp_all add: has_includes_def log_entries_def entry_of_def detect_type_JStr
        detect_type_JArr detect_type_def bindE_def orE_def)

lemma concat_singletons: "concat (map (\<lambda>l. [h l]) ls) = map h ls"
  by (induction ls) simp_all

lemma category_entries_cases:
  "category_entries kv =
     (if lines_ok (snd kv)
      then Inr (case snd kv of JArr ls \<Rightarrow> map (entry_of (fst kv)) ls | _ \<Rightarrow> [])
      else Inl TypeError)"
proof (cases "snd kv")
  case (JArr ls)
  have "mapE (log_entries (fst kv)) ls =
        (if list_all has_includes ls then Inr (map (\<lambda>l. [entry_of (fst kv) l]) ls)
         else Inl TypeError)"
    by (rule mapE_cases) (rule log_entries_cases)
  then show ?thesis using JArr
    by (simp add: category_entries_def lines_ok_def bindE_def concat_singletons)
qed (simp_all add: category_entries_def lines_ok_def)

lemma file_entries_cases:
  "file_entries v = (if file_ok v then Inr (entries_of (props v)) else Inl TypeError)"
proof (cases "v = JNull")
  case True
  then show ?thesis by (simp add: file_entries_def file_ok_def bindE_def)
next
  case False
  have "mapE category_entries (props v) =
        (if list_all (\<lambda>kv. lines_ok (snd kv)) (props v)
         then Inr (map (\<lambda>kv. case snd kv of JArr ls \<Rightarrow> map (entry_of (fst kv)) ls | _ \<Rightarrow> [])
                     (props v))
         else Inl TypeError)"
    by (rule mapE_cases) (rule category_entries_cases)
  then show ?thesis using False
    by (simp add: file_entries_def file_ok_def own_props_cases bindE_def entries_of_def
          case_prod_unfold)
qed

lemma file_logfiles_cases:
  "file_logfiles j kv =
     (if file_ok (snd kv) then Inr (file_logfile j (fst kv) (snd kv)) else Inl TypeError)"
  by (simp add: file_logfiles_def file_entries_cases file_logfile_def bindE_def)

lemma job_logfiles_cases:
  "job_logfiles kv =
     (if job_ok (snd kv)
      then Inr (concat (map (\<lambda>(f, fv). file_logfile (fst kv) f fv) (props (snd kv))))
      else Inl TypeError)"
proof (cases "snd kv = JNull")
  case True
  then show ?thesis by (simp add: job_logfiles_def job_ok_def bindE_def)
next
  case False
  have "mapE (file_logfiles (fst kv)) (props (snd kv)) =
        (if list_all (\<lambda>fkv. file_ok (snd fkv)) (props (snd kv))
         then Inr (map (\<lambda>fkv. file_logfile (fst kv) (fst fkv) (snd fkv)) (props (snd kv)))
         else Inl TypeError)"
    by (rule mapE_cases) (rule file_logfiles_cases)
  then show ?thesis using False
    by (simp add: job_logfiles_def job_ok_def own_props_cases bindE_def case_prod_unfold)
qed

lemma cleaned_logfiles_cases:
  "c \<noteq> JNull \<Longrightarrow>
   cleaned_logfiles c =
     (if list_all (\<lambda>(j, x). job_ok x) (props c)
      then Inr (concat (map (\<lambda>(j, jv). concat (map (\<lambda>(f, fv). file_logfile j f fv) (props jv)))
                  (props c)))
      else Inl TypeError)"
proof -
  assume nn: "c \<noteq> JNull"
  have "mapE job_logfiles (props c) =
        (if list_all (\<lambda>kv. job_ok (snd kv)) (props c)
         then Inr (map (\<lambda>kv. concat (map (\<lambda>(f, fv). file_logfile (fst kv) f fv) (props (snd kv))))
                     (props c))
         else Inl TypeError)"
    by (rule mapE_cases) (rule job_logfiles_cases)
  then show ?thesis using nn
    by (simp add: cleaned_logfiles_def own_props_cases bindE_def case_prod_unfold)
qed

lemma truthy_not_null: "truthy c \<Longrightarrow> c \<noteq> JNull"
  by (cases c) simp_all

lemma normalize_cases:
  "normalize data = (if payload_ok data then Inr (payload_logfiles data) else Inl TypeError)"
proof (cases "get_prop data ''cleanedLogs''")
  case (Inl e)
  then have "data = JNull" "e = TypeError" by (cases data; simp)+
  then show ?thesis by (simp add: normalize_def payload_ok_def bindE_def)
next
  case (Inr cl)
  then have nn: "data \<noteq> JNull" by (cases data) simp_all
  show ?thesis
  proof (cases cl)
    case None
    then show ?thesis using Inr nn
      by (simp add: normalize_view payload_ok_def payload_logfiles_def bindE_def)
  next
    case (Some c)
    show ?thesis
    proof (cases "truthy c")
      case True
      then have "c \<noteq> JNull" by (rule truthy_not_null)
      then show ?thesis using Inr nn Some True
        by (simp add: normalize_view payload_ok_def payload_logfiles_def bindE_def
              cleaned_logfiles_cases)
    next
      case False
      then show ?thesis using Inr nn Some
        by (simp add: normalize_view payload_ok_def payload_logfiles_def bindE_def)
    qed
  qed
qed

lemma responds_answering: "responds (answering \<lparr>ok = True, json = Inr d\<rparr>) url d"
  by (simp add: responds_def)

lemma log_maps_return:
  assumes "responds fetch (logs_url tok owner repo wid) data"
  shows "(data \<noteq> JNull \<and> (\<forall>c. get_prop data ''cleanedLogs'' = Inr (Some c) \<longrightarrow> \<not> truthy c) \<longrightarrow>
            fetchWorkflowLogs fetch tok owner repo wid = Inr [])
       \<and> (get_prop data ''cleanedLogs'' = Inr (Some (cleanedLogs js)) \<and> string_lines js \<longrightarrow>
            (\<exists>lfs. fetchWorkflowLogs fetch tok owner repo wid = Inr lfs \<and>
               length lfs \<le> length (job_files js) \<and>
               ((\<forall>(j, f, cs)\<in>set (job_files js). array_lines cs = []) \<longrightarrow> lfs = []) \<and>
               (\<forall>fetch' data'.
                  responds fetch' (logs_url tok owner repo wid) data' \<and>
                  get_prop data' ''cleanedLogs'' = Inr (Some (cleanedLogs (array_categories js)))
                  \<longrightarrow> fetchWorkflowLogs fetch' tok owner repo wid = Inr lfs)))"
proof (intro conjI impI)
  assume a: "data \<noteq> JNull \<and> (\<forall>c. get_prop data ''cleanedLogs'' = Inr (Some c) \<longrightarrow> \<not> truthy c)"
  then have "normalize data = Inr []"
    by (cases data) (auto simp: normalize_def bindE_def split: option.splits)
  then show "fetchWorkflowLogs fetch tok owner repo wid = Inr []"
    using assms by (simp add: fetchWorkflowLogs_responds)
next
  assume a: "get_prop data ''cleanedLogs'' = Inr (Some (cleanedLogs js)) \<and> string_lines js"
  have run: "fetchWorkflowLogs fetch tok owner repo wid = Inr (logfiles_of js)"
    using assms a by (intro fetchWorkflowLogs_string [where data = data]) simp_all
  have len: "length (logfiles_of js) \<le> length (job_files js)"
    by (simp add: logfiles_of_filter)
  have empty: "(\<forall>(j, f, cs)\<in>set (job_files js). array_lines cs = []) \<longrightarrow> logfiles_of js = []"
    by (auto simp: logfiles_of_filter filter_empty_conv)
  have same: "\<forall>fetch' data'.
      responds fetch' (logs_url tok owner repo wid) data' \<and>
      get_prop data' ''cleanedLogs'' = Inr (Some (cleanedLogs (array_categories js)))
      \<longrightarrow> fetchWorkflowLogs fetch' tok owner repo wid = Inr (logfiles_of js)"
  proof (intro allI impI)
    fix fetch' data'
    assume b: "responds fetch' (logs_url tok owner repo wid) data' \<and>
      get_prop data' ''cleanedLogs'' = Inr (Some (cleanedLogs (array_categories js)))"
    have "fetchWorkflowLogs fetch' tok owner repo wid = Inr (logfiles_of (array_categories js))"
      using a b by (intro fetchWorkflowLogs_string [where data = data'])
        (simp_all add: string_lines_array_categories)
    then show "fetchWorkflowLogs fetch' tok owner repo wid = Inr (logfiles_of js)"
      by (simp add: logfiles_of_array_categories)
  qed
  show "\<exists>lfs. fetchWorkflowLogs fetch tok owner repo wid = Inr lfs \<and>
               length lfs \<le> length (job_files js) \<and>
               ((\<forall>(j, f, cs)\<in>set (job_files js). array_lines cs = []) \<longrightarrow> lfs = []) \<and>
               (\<forall>fetch' data'.
                  responds fetch' (logs_url tok owner repo wid) data' \<and>
                  get_prop data' ''cleanedLogs'' = Inr (Some (cleanedLogs (array_categories js)))
                  \<longrightarrow> fetchWorkflowLogs fetch' tok owner repo wid = Inr lfs)"
    using run len empty same by blast
qed

section \<open>Properties\<close>

subsection \<open>C1: the type of a log line\<close>

text \<open>
  C1 as the specification states it fails: the code searches the line as it is, without
  folding it to lower case. The line \<^verbatim>\<open>Waiting for runner\<close> in the category
  \<^verbatim>\<open>SingleLogs\<close> of the file \<^verbatim>\<open>1_run.txt\<close> of the job \<^verbatim>\<open>build\<close> comes out with the
  type \<^verbatim>\<open>info\<close>, where the specification's classification gives \<^verbatim>\<open>warning\<close>.
\<close>

theorem waiting_line_is_info:
  "fetchWorkflowLogs
     (answering \<lparr>ok = True, json = Inr (JObj [(''cleanedLogs'',
        JObj [(''build'', JObj [(''1_run.txt'',
          JObj [(''SingleLogs'', JArr [JStr ''Waiting for runner''])])])])])\<rparr>)
     ''token'' ''owner'' ''repo'' ''42''
   = Inr [\<lparr>name = ''build/1_run.txt'',
           logs = [\<lparr>message = JStr ''Waiting for runner'', type = Some ''info'',
                    category = None\<rparr>]\<rparr>]
   \<and> spec_type ''Waiting for runner'' = ''warning''"
  by (simp add: eval_defs spec_type_def lower_char_def sublist_code(3))

text \<open>
  C1, amended: every entry that \<^verbatim>\<open>fetchWorkflowLogs\<close> returns for a string line has the
  type \<^verbatim>\<open>success\<close> if the line itself (case-sensitively) contains \<^verbatim>\<open>success\<close> or
  \<^verbatim>\<open>completed\<close>, else \<^verbatim>\<open>warning\<close> if it contains \<^verbatim>\<open>warning\<close> or \<^verbatim>\<open>waiting\<close>, else
  \<^verbatim>\<open>error\<close> if it contains \<^verbatim>\<open>error\<close> or \<^verbatim>\<open>failed\<close>, else \<^verbatim>\<open>info\<close>. So
  \<^verbatim>\<open>Task completed\<close> is a success, \<^verbatim>\<open>Step failed\<close> an error, both
  \<^verbatim>\<open>Waiting for runner\<close> and \<^verbatim>\<open>Starting job\<close> are info, and
  \<^verbatim>\<open>build completed with error\<close> is a success, the first check that holds.
\<close>

theorem line_type_case_sensitive:
  "(fetchWorkflowLogs fetch tok owner repo wid = Inr lfs \<longrightarrow>
      (\<forall>lf\<in>set lfs. \<forall>e\<in>set (logs lf). \<forall>s. message e = JStr s \<longrightarrow>
         type e = Some
           (if sublist ''success'' s \<or> sublist ''completed'' s then ''success''
            else if sublist ''warning'' s \<or> sublist ''waiting'' s then ''warning''
            else if sublist ''error'' s \<or> sublist ''failed'' s then ''error''
            else ''info'')))
   \<and> detect_type (JStr ''Task completed'') = Inr ''success''
   \<and> detect_type (JStr ''Waiting for runner'') = Inr ''info''
   \<and> detect_type (JStr ''Step failed'') = Inr ''error''
   \<and> detect_type (JStr ''Starting job'') = Inr ''info''
   \<and> detect_type (JStr ''build completed with error'') = Inr ''success''"
proof -
  have "\<forall>lf\<in>set lfs. \<forall>e\<in>set (logs lf). \<forall>s. message e = JStr s \<longrightarrow>
         type e = Some
           (if sublist ''success'' s \<or> sublist ''completed'' s then ''success''
            else if sublist ''warning'' s \<or> sublist ''waiting'' s then ''warning''
            else if sublist ''error'' s \<or> sublist ''failed'' s then ''error''
            else ''info'')"
    if "fetchWorkflowLogs fetch tok owner repo wid = Inr lfs"
  proof -
    from that obtain data where "normalize data = Inr lfs"
      using fetchWorkflowLogs_Inr by blast
    then show ?thesis
      by (rule normalize_all) (auto simp: detect_type_JStr)
  qed
  moreover have "detect_type (JStr ''Task completed'') = Inr ''success''"
    by (simp add: detect_type_JStr sublist_code(3))
  moreover have "detect_type (JStr ''Waiting for runner'') = Inr ''info''"
    by (simp add: detect_type_JStr sublist_code(3))
  moreover have "detect_type (JStr ''Step failed'') = Inr ''error''"
    by (simp add: detect_type_JStr sublist_code(3))
  moreover have "detect_type (JStr ''Starting job'') = Inr ''info''"
    by (simp add: detect_type_JStr sublist_code(3))
  moreover have "detect_type (JStr ''build completed with error'') = Inr ''success''"
    by (simp add: detect_type_JStr sublist_code(3))
  ultimately show ?thesis by blast
qed

theorem line_type_case_sensitive_witness:
  "fetchWorkflowLogs
     (answering \<lparr>ok = True, json = Inr (JObj [(''cleanedLogs'',
        JObj [(''build'', JObj [(''2_test.txt'',
          JObj [(''Run tests'', JArr [JStr ''Step failed''])])])])])\<rparr>)
     ''token'' ''owner'' ''repo'' ''42''
   = Inr [\<lparr>name = ''build/2_test.txt'',
           logs = [\<lparr>message = JStr ''Step failed'', type = Some ''error'',
                    category = Some ''Run tests''\<rparr>]\<rparr>]
   \<and> type \<lparr>message = JStr ''Step failed'', type = Some ''error'',
             category = Some ''Run tests''\<rparr>
     = Some (if sublist ''success'' ''Step failed'' \<or> sublist ''completed'' ''Step failed''
             then ''success''
             else if sublist ''warning'' ''Step failed'' \<or> sublist ''waiting'' ''Step failed''
             then ''warning''
             else if sublist ''error'' ''Step failed'' \<or> sublist ''failed'' ''Step failed''
             then ''error''
             else ''info'')"
proof -
  let ?fetch = "answering \<lparr>ok = True, json = Inr (JObj [(''cleanedLogs'',
        JObj [(''build'', JObj [(''2_test.txt'',
          JObj [(''Run tests'', JArr [JStr ''Step failed''])])])])])\<rparr>"
  let ?e = "\<lparr>message = JStr ''Step failed'', type = Some ''error'',
             category = Some ''Run tests''\<rparr>"
  let ?lfs = "[\<lparr>name = ''build/2_test.txt'', logs = [?e]\<rparr>]"
  have run: "fetchWorkflowLogs ?fetch ''token'' ''owner'' ''repo'' ''42'' = Inr ?lfs"
    by (simp add: eval_defs sublist_code(3))
  have "\<forall>lf\<in>set ?lfs. \<forall>e\<in>set (logs lf). \<forall>s. message e = JStr s \<longrightarrow>
         type e = Some
           (if sublist ''success'' s \<or> sublist ''completed'' s then ''success''
            else if sublist ''warning'' s \<or> sublist ''waiting'' s then ''warning''
            else if sublist ''error'' s \<or> sublist ''failed'' s then ''error''
            else ''info'')"
    using line_type_case_sensitive [of ?fetch "''token''" "''owner''" "''repo''" "''42''" ?lfs] run
    by blast
  then have "type ?e = Some
           (if sublist ''success'' ''Step failed'' \<or> sublist ''completed'' ''Step failed''
            then ''success''
            else if sublist ''warning'' ''Step failed'' \<or> sublist ''waiting'' ''Step failed''
            then ''warning''
            else if sublist ''error'' ''Step failed'' \<or> sublist ''failed'' ''Step failed''
            then ''error''
            else ''info'')"
    by simp
  with run show ?thesis by blast
qed

subsection \<open>C2: the entries of a file\<close>

text \<open>
  C2: for a job \<open>\<rightarrow>\<close> file \<open>\<rightarrow>\<close> category map whose array-valued categories hold
  strings, \<^verbatim>\<open>fetchWorkflowLogs\<close> returns one file for each (job, file) pair with at least
  one entry, pair by pair in order; the file has as many entries as the lengths of the
  pair's array-valued categories sum to, and its messages are the elements of those
  arrays in source order. A pair with no entry has no file.
\<close>

theorem entry_count_is_sum_of_lengths:
  assumes "responds fetch (logs_url tok owner repo wid) data"
    and "get_prop data ''cleanedLogs'' = Inr (Some (cleanedLogs js))"
    and "string_lines js"
  shows "\<exists>lfs. fetchWorkflowLogs fetch tok owner repo wid = Inr lfs \<and>
           list_all2
             (\<lambda>lf (j, f, cs). name lf = j @ ''/'' @ f \<and> length (logs lf) = entry_count cs \<and>
                              map message (logs lf) = array_lines cs)
             lfs (filter (\<lambda>(j, f, cs). entry_count cs \<noteq> 0) (job_files js))"
proof -
  let ?kept = "filter (\<lambda>(j, f, cs). entry_count cs \<noteq> 0) (job_files js)"
  have kept: "?kept = filter (\<lambda>(j, f, cs). array_lines cs \<noteq> []) (job_files js)"
    by (simp add: length_array_lines [symmetric])
  have "list_all2
          (\<lambda>lf (j, f, cs). name lf = j @ ''/'' @ f \<and> length (logs lf) = entry_count cs \<and>
                           map message (logs lf) = array_lines cs)
          (map (\<lambda>(j, f, cs). \<lparr>name = j @ ''/'' @ f, logs = entries_of cs\<rparr>) ?kept) ?kept"
  proof (rule list_all2_map_same)
    fix x assume "x \<in> set ?kept"
    obtain j f cs where x: "x = (j, f, cs)" by (cases x)
    have "length (entries_of cs) = entry_count cs"
      using message_entries_of [of cs] length_array_lines [of cs] by (metis length_map)
    then show "(\<lambda>lf (j, f, cs). name lf = j @ ''/'' @ f \<and> length (logs lf) = entry_count cs \<and>
                           map message (logs lf) = array_lines cs)
          ((\<lambda>(j, f, cs). \<lparr>name = j @ ''/'' @ f, logs = entries_of cs\<rparr>) x) x"
      using x by (simp add: message_entries_of)
  qed
  moreover have "fetchWorkflowLogs fetch tok owner repo wid =
      Inr (map (\<lambda>(j, f, cs). \<lparr>name = j @ ''/'' @ f, logs = entries_of cs\<rparr>) ?kept)"
    by (simp only: fetchWorkflowLogs_string [OF assms] logfiles_of_filter kept)
  ultimately show ?thesis by blast
qed

theorem entry_count_is_sum_of_lengths_witness:
  "responds example_fetch (logs_url ''token'' ''owner'' ''repo'' ''42'') example_body
   \<and> get_prop example_body ''cleanedLogs'' = Inr (Some (cleanedLogs example_jobs))
   \<and> string_lines example_jobs
   \<and> (\<exists>lf. fetchWorkflowLogs example_fetch ''token'' ''owner'' ''repo'' ''42'' = Inr [lf]
         \<and> name lf = ''build/1_run.txt'' \<and> length (logs lf) = 3
         \<and> map message (logs lf) =
             [JStr ''Starting job'', JStr ''Task completed'', JStr ''Step failed''])"
proof -
  have kept: "filter (\<lambda>(j, f, cs). entry_count cs \<noteq> 0) (job_files example_jobs) =
     [(''build'', ''1_run.txt'',
         [(''SingleLogs'', JArr [JStr ''Starting job'', JStr ''Task completed'']),
          (''Run tests'', JArr [JStr ''Step failed'']),
          (''annotations'', JNum 2)])]"
    by (simp add: example_job_files entry_count_def)
  from entry_count_is_sum_of_lengths
      [OF example_responds example_cleanedLogs example_string_lines]
  obtain lfs where run: "fetchWorkflowLogs example_fetch ''token'' ''owner'' ''repo'' ''42'' = Inr lfs"
    and rel: "list_all2
             (\<lambda>lf (j, f, cs). name lf = j @ ''/'' @ f \<and> length (logs lf) = entry_count cs \<and>
                              map message (logs lf) = array_lines cs)
             lfs (filter (\<lambda>(j, f, cs). entry_count cs \<noteq> 0) (job_files example_jobs))"
    by blast
  have "\<exists>lf. lfs = [lf] \<and> name lf = ''build'' @ ''/'' @ ''1_run.txt'' \<and>
     length (logs lf) = entry_count
         [(''SingleLogs'', JArr [JStr ''Starting job'', JStr ''Task completed'']),
          (''Run tests'', JArr [JStr ''Step failed'']),
          (''annotations'', JNum 2)] \<and>
     map message (logs lf) = array_lines
         [(''SingleLogs'', JArr [JStr ''Starting job'', JStr ''Task completed'']),
          (''Run tests'', JArr [JStr ''Step failed'']),
          (''annotations'', JNum 2)]"
    using list_all2_single [OF rel [unfolded kept]] by simp
  then obtain lf where lfs: "lfs = [lf]"
    and n: "name lf = ''build'' @ ''/'' @ ''1_run.txt''"
    and l: "length (logs lf) = entry_count
         [(''SingleLogs'', JArr [JStr ''Starting job'', JStr ''Task completed'']),
          (''Run tests'', JArr [JStr ''Step failed'']),
          (''annotations'', JNum 2)]"
    and m: "map message (logs lf) = array_lines
         [(''SingleLogs'', JArr [JStr ''Starting job'', JStr ''Task completed'']),
          (''Run tests'', JArr [JStr ''Step failed'']),
          (''annotations'', JNum 2)]"
    by blast
  have "fetchWorkflowLogs example_fetch ''token'' ''owner'' ''repo'' ''42'' = Inr [lf]"
    using run lfs by simp
  moreover have "name lf = ''build/1_run.txt''"
    using n by simp
  moreover have "length (logs lf) = 3"
    using l by (simp add: entry_count_def)
  moreover have "map message (logs lf) =
      [JStr ''Starting job'', JStr ''Task completed'', JStr ''Step failed'']"
    using m by (simp add: array_lines_def)
  ultimately show ?thesis
    by (intro conjI exI [of _ lf] example_responds example_cleanedLogs example_string_lines)
qed

subsection \<open>C3: the order of the files\<close>

text \<open>
  C3: the files come in the traversal order of the keys (jobs first, then the files of
  each job), each named job \<^verbatim>\<open>/\<close> file; and the result is a function of the parsed
  body only: two runs that receive the same body return the same.
\<close>

theorem output_order_is_traversal_order:
  assumes "responds fetch (logs_url tok owner repo wid) data"
  shows "(get_prop data ''cleanedLogs'' = Inr (Some (cleanedLogs js)) \<and> string_lines js \<longrightarrow>
           (\<exists>lfs. fetchWorkflowLogs fetch tok owner repo wid = Inr lfs \<and>
              map name lfs =
                map (\<lambda>(j, f, cs). j @ ''/'' @ f)
                  (filter (\<lambda>(j, f, cs). array_lines cs \<noteq> []) (job_files js))))
       \<and> (\<forall>fetch'. responds fetch' (logs_url tok owner repo wid) data \<longrightarrow>
            fetchWorkflowLogs fetch' tok owner repo wid = fetchWorkflowLogs fetch tok owner repo wid)"
proof (intro conjI impI allI)
  assume a: "get_prop data ''cleanedLogs'' = Inr (Some (cleanedLogs js)) \<and> string_lines js"
  have "fetchWorkflowLogs fetch tok owner repo wid = Inr (logfiles_of js)"
    using assms a by (intro fetchWorkflowLogs_string [where data = data]) simp_all
  moreover have "map name (logfiles_of js) =
      map (\<lambda>(j, f, cs). j @ ''/'' @ f) (filter (\<lambda>(j, f, cs). array_lines cs \<noteq> []) (job_files js))"
    by (simp add: logfiles_of_filter comp_def case_prod_unfold)
  ultimately show "\<exists>lfs. fetchWorkflowLogs fetch tok owner repo wid = Inr lfs \<and>
              map name lfs =
                map (\<lambda>(j, f, cs). j @ ''/'' @ f)
                  (filter (\<lambda>(j, f, cs). array_lines cs \<noteq> []) (job_files js))"
    by simp
next
  fix fetch' assume "responds fetch' (logs_url tok owner repo wid) data"
  then show "fetchWorkflowLogs fetch' tok owner repo wid = fetchWorkflowLogs fetch tok owner repo wid"
    using assms by (simp add: fetchWorkflowLogs_responds)
qed

theorem output_order_is_traversal_order_witness:
  "responds example_fetch (logs_url ''token'' ''owner'' ''repo'' ''42'') example_body
   \<and> get_prop example_body ''cleanedLogs'' = Inr (Some (cleanedLogs example_jobs))
   \<and> string_lines example_jobs
   \<and> (\<exists>lfs. fetchWorkflowLogs example_fetch ''token'' ''owner'' ''repo'' ''42'' = Inr lfs
         \<and> map name lfs = [''build/1_run.txt''])
   \<and> fetchWorkflowLogs (\<lambda>url. if url = logs_url ''token'' ''owner'' ''repo'' ''42''
                                then Inr \<lparr>ok = True, json = Inr example_body\<rparr>
                                else Inl (Rejected ''offline''))
         ''token'' ''owner'' ''repo'' ''42''
       = fetchWorkflowLogs example_fetch ''token'' ''owner'' ''repo'' ''42''"
proof -
  let ?other = "\<lambda>url. if url = logs_url ''token'' ''owner'' ''repo'' ''42''
                                then Inr \<lparr>ok = True, json = Inr example_body\<rparr>
                                else Inl (Rejected ''offline'')"
  have other: "responds ?other (logs_url ''token'' ''owner'' ''repo'' ''42'') example_body"
    by (simp add: responds_def)
  have kept: "filter (\<lambda>(j, f, cs). array_lines cs \<noteq> []) (job_files example_jobs) =
     [(''build'', ''1_run.txt'',
         [(''SingleLogs'', JArr [JStr ''Starting job'', JStr ''Task completed'']),
          (''Run tests'', JArr [JStr ''Step failed'']),
          (''annotations'', JNum 2)])]"
    by (simp add: example_job_files array_lines_def)
  note order = output_order_is_traversal_order [OF example_responds, of example_jobs]
  have "\<exists>lfs. fetchWorkflowLogs example_fetch ''token'' ''owner'' ''repo'' ''42'' = Inr lfs \<and>
      map name lfs =
        map (\<lambda>(j, f, cs). j @ ''/'' @ f)
          (filter (\<lambda>(j, f, cs). array_lines cs \<noteq> []) (job_files example_jobs))"
    using order [THEN conjunct1] example_cleanedLogs example_string_lines by (rule mp [OF _ conjI])
  then have names: "\<exists>lfs. fetchWorkflowLogs example_fetch ''token'' ''owner'' ''repo'' ''42'' = Inr lfs \<and>
      map name lfs = [''build/1_run.txt'']"
    unfolding kept by simp
  have same: "fetchWorkflowLogs ?other ''token'' ''owner'' ''repo'' ''42''
       = fetchWorkflowLogs example_fetch ''token'' ''owner'' ''repo'' ''42''"
    using order [THEN conjunct2, THEN spec, of ?other] other by (rule mp)
  show ?thesis
    by (intro conjI example_responds example_cleanedLogs example_string_lines names same)
qed

subsection \<open>C4: the category of an entry\<close>

text \<open>
  C4: entry by entry, the \<^verbatim>\<open>category\<close> field is absent when the key of the source
  category is \<^verbatim>\<open>SingleLogs\<close> and is the key itself otherwise; and on every payload no
  returned entry has the category \<^verbatim>\<open>SingleLogs\<close>.
\<close>

theorem SingleLogs_category_is_dropped:
  "(responds fetch (logs_url tok owner repo wid) data \<and>
    get_prop data ''cleanedLogs'' = Inr (Some (cleanedLogs js)) \<and> string_lines js \<longrightarrow>
      (\<exists>lfs. fetchWorkflowLogs fetch tok owner repo wid = Inr lfs \<and>
         list_all2
           (\<lambda>lf (j, f, cs).
              list_all2 (\<lambda>e c. category e = (if c = ''SingleLogs'' then None else Some c))
                (logs lf) (source_keys cs))
           lfs (filter (\<lambda>(j, f, cs). array_lines cs \<noteq> []) (job_files js))))
   \<and> (fetchWorkflowLogs fetch tok owner repo wid = Inr lfs' \<longrightarrow>
        (\<forall>lf\<in>set lfs'. \<forall>e\<in>set (logs lf). category e \<noteq> Some ''SingleLogs''))"
proof (intro conjI impI)
  let ?kept = "filter (\<lambda>(j, f, cs). array_lines cs \<noteq> []) (job_files js)"
  assume a: "responds fetch (logs_url tok owner repo wid) data \<and>
    get_prop data ''cleanedLogs'' = Inr (Some (cleanedLogs js)) \<and> string_lines js"
  have run: "fetchWorkflowLogs fetch tok owner repo wid = Inr (logfiles_of js)"
    using a by (intro fetchWorkflowLogs_string [where data = data]) simp_all
  have "list_all2
           (\<lambda>lf (j, f, cs).
              list_all2 (\<lambda>e c. category e = (if c = ''SingleLogs'' then None else Some c))
                (logs lf) (source_keys cs))
          (map (\<lambda>(j, f, cs). \<lparr>name = j @ ''/'' @ f, logs = entries_of cs\<rparr>) ?kept) ?kept"
  proof (rule list_all2_map_same)
    fix x assume "x \<in> set ?kept"
    obtain j f cs where x: "x = (j, f, cs)" by (cases x)
    have "list_all2 (\<lambda>e c. category e = (if c = ''SingleLogs'' then None else Some c))
            (entries_of cs) (source_keys cs)"
      using category_entries_of [of cs]
      by (simp add: list_all2_conv_all_nth list_eq_iff_nth_eq)
    then show "(\<lambda>lf (j, f, cs).
              list_all2 (\<lambda>e c. category e = (if c = ''SingleLogs'' then None else Some c))
                (logs lf) (source_keys cs))
          ((\<lambda>(j, f, cs). \<lparr>name = j @ ''/'' @ f, logs = entries_of cs\<rparr>) x) x"
      using x by simp
  qed
  then show "\<exists>lfs. fetchWorkflowLogs fetch tok owner repo wid = Inr lfs \<and>
         list_all2
           (\<lambda>lf (j, f, cs).
              list_all2 (\<lambda>e c. category e = (if c = ''SingleLogs'' then None else Some c))
                (logs lf) (source_keys cs))
           lfs ?kept"
    using run by (simp add: logfiles_of_filter)
next
  assume "fetchWorkflowLogs fetch tok owner repo wid = Inr lfs'"
  then obtain d where "normalize d = Inr lfs'"
    using fetchWorkflowLogs_Inr by blast
  then show "\<forall>lf\<in>set lfs'. \<forall>e\<in>set (logs lf). category e \<noteq> Some ''SingleLogs''"
    by (rule normalize_all) simp
qed

theorem SingleLogs_category_is_dropped_witness:
  "responds example_fetch (logs_url ''token'' ''owner'' ''repo'' ''42'') example_body
   \<and> get_prop example_body ''cleanedLogs'' = Inr (Some (cleanedLogs example_jobs))
   \<and> string_lines example_jobs
   \<and> (\<exists>lf. fetchWorkflowLogs example_fetch ''token'' ''owner'' ''repo'' ''42'' = Inr [lf]
         \<and> map category (logs lf) = [None, None, Some ''Run tests'']
         \<and> Some ''SingleLogs'' \<notin> set (map category (logs lf)))"
proof -
  have kept: "filter (\<lambda>(j, f, cs). array_lines cs \<noteq> []) (job_files example_jobs) =
     [(''build'', ''1_run.txt'',
         [(''SingleLogs'', JArr [JStr ''Starting job'', JStr ''Task completed'']),
          (''Run tests'', JArr [JStr ''Step failed'']),
          (''annotations'', JNum 2)])]"
    by (simp add: example_job_files array_lines_def)
  have keys: "source_keys
         [(''SingleLogs'', JArr [JStr ''Starting job'', JStr ''Task completed'']),
          (''Run tests'', JArr [JStr ''Step failed'']),
          (''annotations'', JNum 2)] = [''SingleLogs'', ''SingleLogs'', ''Run tests'']"
    by (simp add: source_keys_def numeral_2_eq_2)
  have "\<exists>lfs. fetchWorkflowLogs example_fetch ''token'' ''owner'' ''repo'' ''42'' = Inr lfs \<and>
         list_all2
           (\<lambda>lf (j, f, cs).
              list_all2 (\<lambda>e c. category e = (if c = ''SingleLogs'' then None else Some c))
                (logs lf) (source_keys cs))
           lfs (filter (\<lambda>(j, f, cs). array_lines cs \<noteq> []) (job_files example_jobs))"
    using SingleLogs_category_is_dropped
      [of example_fetch "''token''" "''owner''" "''repo''" "''42''" example_body example_jobs]
      example_responds example_cleanedLogs example_string_lines
    by blast
  then obtain lfs where run0: "fetchWorkflowLogs example_fetch ''token'' ''owner'' ''repo'' ''42'' = Inr lfs"
    and rel: "list_all2
           (\<lambda>lf (j, f, cs).
              list_all2 (\<lambda>e c. category e = (if c = ''SingleLogs'' then None else Some c))
                (logs lf) (source_keys cs))
           lfs (filter (\<lambda>(j, f, cs). array_lines cs \<noteq> []) (job_files example_jobs))"
    by blast
  have "\<exists>lf. lfs = [lf] \<and>
          list_all2 (\<lambda>e c. category e = (if c = ''SingleLogs'' then None else Some c))
                 (logs lf) (source_keys
         [(''SingleLogs'', JArr [JStr ''Starting job'', JStr ''Task completed'']),
          (''Run tests'', JArr [JStr ''Step failed'']),
          (''annotations'', JNum 2)])"
    using list_all2_single [OF rel [unfolded kept]] by simp
  then obtain lf where lfs: "lfs = [lf]"
    and cats0: "list_all2 (\<lambda>e c. category e = (if c = ''SingleLogs'' then None else Some c))
                 (logs lf) (source_keys
         [(''SingleLogs'', JArr [JStr ''Starting job'', JStr ''Task completed'']),
          (''Run tests'', JArr [JStr ''Step failed'']),
          (''annotations'', JNum 2)])"
    by blast
  have cats: "list_all2 (\<lambda>e c. category e = (if c = ''SingleLogs'' then None else Some c))
                 (logs lf) [''SingleLogs'', ''SingleLogs'', ''Run tests'']"
    using cats0 by (simp only: keys)
  have run: "fetchWorkflowLogs example_fetch ''token'' ''owner'' ''repo'' ''42'' = Inr [lf]"
    using run0 lfs by simp
  from cats have c: "map category (logs lf) = [None, None, Some ''Run tests'']"
    by (clarsimp simp: list_all2_Cons2)
  have "\<forall>lf'\<in>set [lf]. \<forall>e\<in>set (logs lf'). category e \<noteq> Some ''SingleLogs''"
    using SingleLogs_category_is_dropped
      [of example_fetch "''token''" "''owner''" "''repo''" "''42''" example_body example_jobs "[lf]"]
      run
    by blast
  then have nin: "Some ''SingleLogs'' \<notin> set (map category (logs lf))"
    by (intro notin_map) simp
  show ?thesis
    by (intro conjI exI [of _ lf] example_responds example_cleanedLogs example_string_lines
          run c nin)
qed

subsection \<open>C5: when the normalisation returns\<close>

text \<open>
  C5 as stated fails: the job \<^verbatim>\<open>build\<close> with the value null makes
  \<^verbatim>\<open>Object.keys(jobLogs)\<close> throw, and the wrapper throws the \<^verbatim>\<open>TypeError\<close> again.
\<close>

theorem null_job_raises:
  "fetchWorkflowLogs
     (answering \<lparr>ok = True, json = Inr (JObj [(''cleanedLogs'', JObj [(''build'', JNull)])])\<rparr>)
     ''token'' ''owner'' ''repo'' ''42''
   = Inl TypeError"
  by (simp add: eval_defs)

text \<open>
  C5, amended: the normalisation returns exactly on the bodies that are not null and in
  which, when \<^verbatim>\<open>cleanedLogs\<close> is present and truthy, no job and no file is null and every
  element of every array-valued category is a string or an array; on every other body the
  wrapper throws a \<^verbatim>\<open>TypeError\<close>: on a null body, a null job, a null file, and an array
  element without \<^verbatim>\<open>includes\<close>. Where it returns, the result is the list of the files with
  at least one entry, a category whose value is not an array adding none; it is empty when
  \<^verbatim>\<open>cleanedLogs\<close> is absent or falsy. On a job \<open>\<rightarrow>\<close> file \<open>\<rightarrow>\<close> category map whose
  array-valued categories hold strings it has at most one file per (job, file) pair, no
  file when no pair has a line, and is the same as on the map without the categories whose
  value is not an array.
\<close>

theorem normalizer_total_on_log_maps:
  assumes "responds fetch (logs_url tok owner repo wid) data"
  shows "fetchWorkflowLogs fetch tok owner repo wid =
           (if payload_ok data then Inr (payload_logfiles data) else Inl TypeError)
       \<and> (data = JNull \<longrightarrow> fetchWorkflowLogs fetch tok owner repo wid = Inl TypeError)
       \<and> (\<forall>c j. get_prop data ''cleanedLogs'' = Inr (Some c) \<and> truthy c \<and>
                 (j, JNull) \<in> set (props c) \<longrightarrow>
            fetchWorkflowLogs fetch tok owner repo wid = Inl TypeError)
       \<and> (\<forall>c j jv f. get_prop data ''cleanedLogs'' = Inr (Some c) \<and> truthy c \<and>
                 (j, jv) \<in> set (props c) \<and> (f, JNull) \<in> set (props jv) \<longrightarrow>
            fetchWorkflowLogs fetch tok owner repo wid = Inl TypeError)
       \<and> (\<forall>c j jv f fv k ls l. get_prop data ''cleanedLogs'' = Inr (Some c) \<and> truthy c \<and>
                 (j, jv) \<in> set (props c) \<and> (f, fv) \<in> set (props jv) \<and>
                 (k, JArr ls) \<in> set (props fv) \<and> l \<in> set ls \<and> \<not> has_includes l \<longrightarrow>
            fetchWorkflowLogs fetch tok owner repo wid = Inl TypeError)
       \<and> (data \<noteq> JNull \<and> (\<forall>c. get_prop data ''cleanedLogs'' = Inr (Some c) \<longrightarrow> \<not> truthy c) \<longrightarrow>
            fetchWorkflowLogs fetch tok owner repo wid = Inr [])
       \<and> (get_prop data ''cleanedLogs'' = Inr (Some (cleanedLogs js)) \<and> string_lines js \<longrightarrow>
            (\<exists>lfs. fetchWorkflowLogs fetch tok owner repo wid = Inr lfs \<and>
               length lfs \<le> length (job_files js) \<and>
               ((\<forall>(j, f, cs)\<in>set (job_files js). array_lines cs = []) \<longrightarrow> lfs = []) \<and>
               (\<forall>fetch' data'.
                  responds fetch' (logs_url tok owner repo wid) data' \<and>
                  get_prop data' ''cleanedLogs'' = Inr (Some (cleanedLogs (array_categories js)))
                  \<longrightarrow> fetchWorkflowLogs fetch' tok owner repo wid = Inr lfs)))"
proof -
  have run: "fetchWorkflowLogs fetch tok owner repo wid =
           (if payload_ok data then Inr (payload_logfiles data) else Inl TypeError)"
    using assms by (simp add: fetchWorkflowLogs_responds normalize_cases)
  have bad: "fetchWorkflowLogs fetch tok owner repo wid = Inl TypeError" if "\<not> payload_ok data"
    using run that by simp
  have nnull: "data = JNull \<longrightarrow> fetchWorkflowLogs fetch tok owner repo wid = Inl TypeError"
    by (auto intro!: bad simp: payload_ok_def)
  have njob: "\<forall>c j. get_prop data ''cleanedLogs'' = Inr (Some c) \<and> truthy c \<and>
                 (j, JNull) \<in> set (props c) \<longrightarrow>
            fetchWorkflowLogs fetch tok owner repo wid = Inl TypeError"
  proof (intro allI impI)
    fix c j
    assume a: "get_prop data ''cleanedLogs'' = Inr (Some c) \<and> truthy c \<and>
                 (j, JNull) \<in> set (props c)"
    then have "\<not> list_all (\<lambda>(j, x). job_ok x) (props c)"
      by (auto simp: list_all_iff job_ok_def)
    then have "\<not> payload_ok data" using a by (simp add: payload_ok_def)
    then show "fetchWorkflowLogs fetch tok owner repo wid = Inl TypeError" by (rule bad)
  qed
  have nfile: "\<forall>c j jv f. get_prop data ''cleanedLogs'' = Inr (Some c) \<and> truthy c \<and>
                 (j, jv) \<in> set (props c) \<and> (f, JNull) \<in> set (props jv) \<longrightarrow>
            fetchWorkflowLogs fetch tok owner repo wid = Inl TypeError"
  proof (intro allI impI)
    fix c j jv f
    assume a: "get_prop data ''cleanedLogs'' = Inr (Some c) \<and> truthy c \<and>
                 (j, jv) \<in> set (props c) \<and> (f, JNull) \<in> set (props jv)"
    then have "\<not> job_ok jv"
      by (auto simp: list_all_iff job_ok_def file_ok_def)
    then have "\<not> list_all (\<lambda>(j, x). job_ok x) (props c)"
      using a by (auto simp: list_all_iff)
    then have "\<not> payload_ok data" using a by (simp add: payload_ok_def)
    then show "fetchWorkflowLogs fetch tok owner repo wid = Inl TypeError" by (rule bad)
  qed
  have nline: "\<forall>c j jv f fv k ls l. get_prop data ''cleanedLogs'' = Inr (Some c) \<and> truthy c \<and>
                 (j, jv) \<in> set (props c) \<and> (f, fv) \<in> set (props jv) \<and>
                 (k, JArr ls) \<in> set (props fv) \<and> l \<in> set ls \<and> \<not> has_includes l \<longrightarrow>
            fetchWorkflowLogs fetch tok owner repo wid = Inl TypeError"
  proof (intro allI impI)
    fix c j jv f fv k ls l
    assume a: "get_prop data ''cleanedLogs'' = Inr (Some c) \<and> truthy c \<and>
                 (j, jv) \<in> set (props c) \<and> (f, fv) \<in> set (props jv) \<and>
                 (k, JArr ls) \<in> set (props fv) \<and> l \<in> set ls \<and> \<not> has_includes l"
    then have "\<not> lines_ok (JArr ls)"
      by (auto simp: lines_ok_def list_all_iff)
    then have "\<not> file_ok fv"
      using a by (auto simp: list_all_iff file_ok_def)
    then have "\<not> job_ok jv"
      using a by (auto simp: list_all_iff job_ok_def)
    then have "\<not> list_all (\<lambda>(j, x). job_ok x) (props c)"
      using a by (auto simp: list_all_iff)
    then have "\<not> payload_ok data" using a by (simp add: payload_ok_def)
    then show "fetchWorkflowLogs fetch tok owner repo wid = Inl TypeError" by (rule bad)
  qed
  have absent: "data \<noteq> JNull \<and> (\<forall>c. get_prop data ''cleanedLogs'' = Inr (Some c) \<longrightarrow> \<not> truthy c) \<longrightarrow>
            fetchWorkflowLogs fetch tok owner repo wid = Inr []"
    using log_maps_return [OF assms] by blast
  have maps: "get_prop data ''cleanedLogs'' = Inr (Some (cleanedLogs js)) \<and> string_lines js \<longrightarrow>
            (\<exists>lfs. fetchWorkflowLogs fetch tok owner repo wid = Inr lfs \<and>
               length lfs \<le> length (job_files js) \<and>
               ((\<forall>(j, f, cs)\<in>set (job_files js). array_lines cs = []) \<longrightarrow> lfs = []) \<and>
               (\<forall>fetch' data'.
                  responds fetch' (logs_url tok owner repo wid) data' \<and>
                  get_prop data' ''cleanedLogs'' = Inr (Some (cleanedLogs (array_categories js)))
                  \<longrightarrow> fetchWorkflowLogs fetch' tok owner repo wid = Inr lfs))"
    using log_maps_return [OF assms, of js] by (rule conjunct2)
  show ?thesis
    by (intro conjI run nnull njob nfile nline absent maps)
qed

theorem normalizer_total_on_log_maps_witness:
  "responds example_fetch (logs_url ''token'' ''owner'' ''repo'' ''42'') example_body
   \<and> get_prop example_body ''cleanedLogs'' = Inr (Some (cleanedLogs example_jobs))
   \<and> string_lines example_jobs
   \<and> (\<exists>lfs. fetchWorkflowLogs example_fetch ''token'' ''owner'' ''repo'' ''42'' = Inr lfs
         \<and> length lfs \<le> 2)
   \<and> fetchWorkflowLogs
       (answering \<lparr>ok = True, json = Inr (JObj [(''message'', JStr ''no logs'')])\<rparr>)
       ''token'' ''owner'' ''repo'' ''42'' = Inr []
   \<and> fetchWorkflowLogs
       (answering \<lparr>ok = True, json = Inr (JObj [(''cleanedLogs'', JObj [(''build'', JNum 5)])])\<rparr>)
       ''token'' ''owner'' ''repo'' ''42'' = Inr []
   \<and> fetchWorkflowLogs
       (answering \<lparr>ok = True, json = Inr (JObj [(''cleanedLogs'', JBool True)])\<rparr>)
       ''token'' ''owner'' ''repo'' ''42'' = Inr []
   \<and> fetchWorkflowLogs (answering \<lparr>ok = True, json = Inr JNull\<rparr>)
       ''token'' ''owner'' ''repo'' ''42'' = Inl TypeError
   \<and> fetchWorkflowLogs
       (answering \<lparr>ok = True, json = Inr (JObj [(''cleanedLogs'', JObj [(''build'', JNull)])])\<rparr>)
       ''token'' ''owner'' ''repo'' ''42'' = Inl TypeError
   \<and> fetchWorkflowLogs
       (answering \<lparr>ok = True, json = Inr (JObj [(''cleanedLogs'',
          JObj [(''build'', JObj [(''1_run'', JNull)])])])\<rparr>)
       ''token'' ''owner'' ''repo'' ''42'' = Inl TypeError
   \<and> fetchWorkflowLogs
       (answering \<lparr>ok = True, json = Inr (JObj [(''cleanedLogs'',
          JObj [(''build'', JObj [(''1_run'', JObj [(''SingleLogs'', JArr [JNum 7])])])])])\<rparr>)
       ''token'' ''owner'' ''repo'' ''42'' = Inl TypeError"
proof -
  let ?url = "logs_url ''token'' ''owner'' ''repo'' ''42''"
  let ?d1 = "JObj [(''message'', JStr ''no logs'')]"
  let ?d2 = "JObj [(''cleanedLogs'', JObj [(''build'', JNum 5)])]"
  let ?d3 = "JObj [(''cleanedLogs'', JBool True)]"
  let ?d5 = "JObj [(''cleanedLogs'', JObj [(''build'', JNull)])]"
  let ?d6 = "JObj [(''cleanedLogs'', JObj [(''build'', JObj [(''1_run'', JNull)])])]"
  let ?d7 = "JObj [(''cleanedLogs'',
          JObj [(''build'', JObj [(''1_run'', JObj [(''SingleLogs'', JArr [JNum 7])])])])]"
  note ok_defs = payload_ok_def payload_logfiles_def job_ok_def file_ok_def lines_ok_def
    props_def has_includes_def file_logfile_def entries_of_def
  have "\<exists>lfs. fetchWorkflowLogs example_fetch ''token'' ''owner'' ''repo'' ''42'' = Inr lfs \<and>
      length lfs \<le> length (job_files example_jobs)"
    using normalizer_total_on_log_maps [OF example_responds, of example_jobs]
      example_cleanedLogs example_string_lines
    by blast
  then have some: "\<exists>lfs. fetchWorkflowLogs example_fetch ''token'' ''owner'' ''repo'' ''42'' = Inr lfs \<and>
      length lfs \<le> 2"
    by (simp add: example_job_files numeral_2_eq_2)
  have r1: "fetchWorkflowLogs (answering \<lparr>ok = True, json = Inr ?d1\<rparr>)
       ''token'' ''owner'' ''repo'' ''42'' = Inr []"
    using normalizer_total_on_log_maps [OF responds_answering [of ?d1 ?url], THEN conjunct1]
    by (simp add: ok_defs)
  have r2: "fetchWorkflowLogs (answering \<lparr>ok = True, json = Inr ?d2\<rparr>)
       ''token'' ''owner'' ''repo'' ''42'' = Inr []"
    using normalizer_total_on_log_maps [OF responds_answering [of ?d2 ?url], THEN conjunct1]
    by (simp add: ok_defs)
  have r3: "fetchWorkflowLogs (answering \<lparr>ok = True, json = Inr ?d3\<rparr>)
       ''token'' ''owner'' ''repo'' ''42'' = Inr []"
    using normalizer_total_on_log_maps [OF responds_answering [of ?d3 ?url], THEN conjunct1]
    by (simp add: ok_defs)
  have r4: "fetchWorkflowLogs (answering \<lparr>ok = True, json = Inr JNull\<rparr>)
       ''token'' ''owner'' ''repo'' ''42'' = Inl TypeError"
    using normalizer_total_on_log_maps [OF responds_answering [of JNull ?url], THEN conjunct1]
    by (simp add: ok_defs)
  have r5: "fetchWorkflowLogs (answering \<lparr>ok = True, json = Inr ?d5\<rparr>)
       ''token'' ''owner'' ''repo'' ''42'' = Inl TypeError"
    using normalizer_total_on_log_maps [OF responds_answering [of ?d5 ?url], THEN conjunct1]
    by (simp add: ok_defs)
  have r6: "fetchWorkflowLogs (answering \<lparr>ok = True, json = Inr ?d6\<rparr>)
       ''token'' ''owner'' ''repo'' ''42'' = Inl TypeError"
    using normalizer_total_on_log_maps [OF responds_answering [of ?d6 ?url], THEN conjunct1]
    by (simp add: ok_defs)
  have r7: "fetchWorkflowLogs (answering \<lparr>ok = True, json = Inr ?d7\<rparr>)
       ''token'' ''owner'' ''repo'' ''42'' = Inl TypeError"
    using normalizer_total_on_log_maps [OF responds_answering [of ?d7 ?url], THEN conjunct1]
    by (simp add: ok_defs)
  show ?thesis
    by (intro conjI example_responds example_cleanedLogs example_string_lines some
          r1 r2 r3 r4 r5 r6 r7)
qed

subsection \<open>C6: the downloaded file\<close>

text \<open>
  C6 at a file name with two \<^verbatim>\<open>/\<close>: the job \<^verbatim>\<open>deploy/eu\<close> and its file \<^verbatim>\<open>1_run\<close> give
  the log file \<^verbatim>\<open>deploy/eu/1_run\<close>. Its download has the two messages joined by a newline,
  and a name in which only the first \<^verbatim>\<open>/\<close> is replaced, where the specification's name has
  both replaced.
\<close>

theorem download_name_keeps_later_slashes:
  "fetchWorkflowLogs
     (answering \<lparr>ok = True, json = Inr (JObj [(''cleanedLogs'',
        JObj [(''deploy/eu'', JObj [(''1_run'',
          JObj [(''SingleLogs'', JArr [JStr ''Starting job'', JStr ''Task completed''])])])])])\<rparr>)
     ''token'' ''owner'' ''repo'' ''42''
   = Inr [\<lparr>name = ''deploy/eu/1_run'',
           logs = [\<lparr>message = JStr ''Starting job'', type = Some ''info'', category = None\<rparr>,
                   \<lparr>message = JStr ''Task completed'', type = Some ''success'',
                     category = None\<rparr>]\<rparr>]
   \<and> downloadLogs to_string ''repo'' ''CI''
       [\<lparr>name = ''deploy/eu/1_run'',
         logs = [\<lparr>message = JStr ''Starting job'', type = Some ''info'', category = None\<rparr>,
                 \<lparr>message = JStr ''Task completed'', type = Some ''success'',
                   category = None\<rparr>]\<rparr>]
       ''deploy/eu/1_run''
     = Inr (Some \<lparr>content = ''Starting job'' @ [CHR 0x0A] @ ''Task completed'',
                  blob_type = ''text/plain'',
                  download = ''repo-CI-deploy-eu/1_run.txt''\<rparr>)
   \<and> spec_download_name ''repo'' ''CI'' ''deploy/eu/1_run'' = ''repo-CI-deploy-eu-1_run.txt''"
proof (intro conjI)
  show "fetchWorkflowLogs
     (answering \<lparr>ok = True, json = Inr (JObj [(''cleanedLogs'',
        JObj [(''deploy/eu'', JObj [(''1_run'',
          JObj [(''SingleLogs'', JArr [JStr ''Starting job'', JStr ''Task completed''])])])])])\<rparr>)
     ''token'' ''owner'' ''repo'' ''42''
   = Inr [\<lparr>name = ''deploy/eu/1_run'',
           logs = [\<lparr>message = JStr ''Starting job'', type = Some ''info'', category = None\<rparr>,
                   \<lparr>message = JStr ''Task completed'', type = Some ''success'',
                     category = None\<rparr>]\<rparr>]"
    by (simp add: eval_defs sublist_code(3))
  show "downloadLogs to_string ''repo'' ''CI''
       [\<lparr>name = ''deploy/eu/1_run'',
         logs = [\<lparr>message = JStr ''Starting job'', type = Some ''info'', category = None\<rparr>,
                 \<lparr>message = JStr ''Task completed'', type = Some ''success'',
                   category = None\<rparr>]\<rparr>]
       ''deploy/eu/1_run''
     = Inr (Some \<lparr>content = ''Starting job'' @ [CHR 0x0A] @ ''Task completed'',
                  blob_type = ''text/plain'',
                  download = ''repo-CI-deploy-eu/1_run.txt''\<rparr>)"
    by (simp add: downloadLogs_def message_text_def bindE_def)
  show "spec_download_name ''repo'' ''CI'' ''deploy/eu/1_run'' = ''repo-CI-deploy-eu-1_run.txt''"
    by (simp add: spec_download_name_def)
qed

subsection \<open>C7: the counters of fetchWorkflows\<close>

text \<open>
  C7: on a payload of the workflow list, \<^verbatim>\<open>fetchWorkflows\<close> returns, and each counter
  of the returned \<^verbatim>\<open>stats\<close> is 0 when its field (\<^verbatim>\<open>success\<close>, \<^verbatim>\<open>failure\<close>,
  \<^verbatim>\<open>Progress\<close>, \<^verbatim>\<open>Cancel\<close>) is absent and the field's value when it is a number or
  any truthy value. On the payload with \<^verbatim>\<open>success\<close> 3 alone the counters are 3, 0, 0
  and 0.
\<close>

theorem stats_default_to_zero:
  "(responds fetch (workflows_url tok owner repo) (JObj kvs) \<and> workflow_list_payload (JObj kvs) \<longrightarrow>
     (\<exists>r. fetchWorkflows fetch tok owner repo = Inr r \<and>
        (\<forall>(k, counter) \<in> set [(''success'', success (stats r)), (''failure'', failure (stats r)),
                               (''Progress'', progress (stats r)), (''Cancel'', cancel (stats r))].
           (map_of kvs k = None \<longrightarrow> counter = JNum 0) \<and>
           (\<forall>n. map_of kvs k = Some (JNum n) \<longrightarrow> counter = JNum n) \<and>
           (\<forall>v. map_of kvs k = Some v \<and> truthy v \<longrightarrow> counter = v))))
   \<and> fetchWorkflows (answering \<lparr>ok = True, json = Inr (JObj [(''success'', JNum 3)])\<rparr>)
        ''token'' ''owner'' ''repo''
      = Inr \<lparr>workflows = [],
              stats = \<lparr>success = JNum 3, failure = JNum 0, progress = JNum 0, cancel = JNum 0\<rparr>\<rparr>"
proof (intro conjI impI)
  assume a: "responds fetch (workflows_url tok owner repo) (JObj kvs) \<and> workflow_list_payload (JObj kvs)"
  then obtain ws where ws: "store_workflows (JObj kvs) = Inr ws"
    using store_workflows_payload by blast
  have "fetchWorkflows fetch tok owner repo =
        Inr \<lparr>workflows = ws,
             stats = \<lparr>success = or_default (map_of kvs ''success'') (JNum 0),
                      failure = or_default (map_of kvs ''failure'') (JNum 0),
                      progress = or_default (map_of kvs ''Progress'') (JNum 0),
                      cancel = or_default (map_of kvs ''Cancel'') (JNum 0)\<rparr>\<rparr>"
  proof -
    from a have r: "responds fetch (workflows_url tok owner repo) (JObj kvs)" by simp
    show ?thesis
      by (simp add: fetchWorkflows_responds [OF r] ws workflow_stats_def bindE_def)
  qed
  then show "\<exists>r. fetchWorkflows fetch tok owner repo = Inr r \<and>
        (\<forall>(k, counter) \<in> set [(''success'', success (stats r)), (''failure'', failure (stats r)),
                               (''Progress'', progress (stats r)), (''Cancel'', cancel (stats r))].
           (map_of kvs k = None \<longrightarrow> counter = JNum 0) \<and>
           (\<forall>n. map_of kvs k = Some (JNum n) \<longrightarrow> counter = JNum n) \<and>
           (\<forall>v. map_of kvs k = Some v \<and> truthy v \<longrightarrow> counter = v))"
    by (simp add: or_default_def)
next
  show "fetchWorkflows (answering \<lparr>ok = True, json = Inr (JObj [(''success'', JNum 3)])\<rparr>)
        ''token'' ''owner'' ''repo''
      = Inr \<lparr>workflows = [],
              stats = \<lparr>success = JNum 3, failure = JNum 0, progress = JNum 0, cancel = JNum 0\<rparr>\<rparr>"
    by (simp add: fetchWorkflows_def store_workflows_def workflow_stats_def bindE_def or_default_def)
qed

theorem stats_default_to_zero_witness:
  "responds
     (answering \<lparr>ok = True, json = Inr (JObj
        [(''storeLogs'', JArr [JObj [(''id'', JNum 7), (''display_title'', JStr ''CI'')]]),
         (''success'', JNum 3), (''Cancel'', JNum 1)])\<rparr>)
     (workflows_url ''token'' ''owner'' ''repo'')
     (JObj [(''storeLogs'', JArr [JObj [(''id'', JNum 7), (''display_title'', JStr ''CI'')]]),
            (''success'', JNum 3), (''Cancel'', JNum 1)])
   \<and> workflow_list_payload
       (JObj [(''storeLogs'', JArr [JObj [(''id'', JNum 7), (''display_title'', JStr ''CI'')]]),
              (''success'', JNum 3), (''Cancel'', JNum 1)])
   \<and> (\<exists>r. fetchWorkflows
         (answering \<lparr>ok = True, json = Inr (JObj
        [(''storeLogs'', JArr [JObj [(''id'', JNum 7), (''display_title'', JStr ''CI'')]]),
         (''success'', JNum 3), (''Cancel'', JNum 1)])\<rparr>)
         ''token'' ''owner'' ''repo'' = Inr r
       \<and> success (stats r) = JNum 3 \<and> failure (stats r) = JNum 0
       \<and> progress (stats r) = JNum 0 \<and> cancel (stats r) = JNum 1)"
proof -
  let ?kvs = "[(''storeLogs'', JArr [JObj [(''id'', JNum 7), (''display_title'', JStr ''CI'')]]),
               (''success'', JNum 3), (''Cancel'', JNum 1)]"
  let ?fetch = "answering \<lparr>ok = True, json = Inr (JObj ?kvs)\<rparr>"
  have r: "responds ?fetch (workflows_url ''token'' ''owner'' ''repo'') (JObj ?kvs)"
    by (simp add: responds_def)
  have p: "workflow_list_payload (JObj ?kvs)"
    by (simp add: workflow_list_payload_def)
  have "\<exists>r. fetchWorkflows ?fetch ''token'' ''owner'' ''repo'' = Inr r \<and>
        (\<forall>(k, counter) \<in> set [(''success'', success (stats r)), (''failure'', failure (stats r)),
                               (''Progress'', progress (stats r)), (''Cancel'', cancel (stats r))].
           (map_of ?kvs k = None \<longrightarrow> counter = JNum 0) \<and>
           (\<forall>n. map_of ?kvs k = Some (JNum n) \<longrightarrow> counter = JNum n) \<and>
           (\<forall>v. map_of ?kvs k = Some v \<and> truthy v \<longrightarrow> counter = v))"
    using stats_default_to_zero [THEN conjunct1, of ?fetch "''token''" "''owner''" "''repo''" ?kvs]
      r p
    by (rule mp [OF _ conjI])
  then have counters: "\<exists>r. fetchWorkflows ?fetch ''token'' ''owner'' ''repo'' = Inr r
       \<and> success (stats r) = JNum 3 \<and> failure (stats r) = JNum 0
       \<and> progress (stats r) = JNum 0 \<and> cancel (stats r) = JNum 1"
    by simp
  show ?thesis
    by (intro conjI r p counters)
qed

subsection \<open>C8: a failed status is thrown\<close>

text \<open>
  C8: when the response of a wrapper's request has a status that is not successful, the
  wrapper throws its error; it returns no result.
\<close>

theorem failed_status_is_thrown:
  "(fetch (repos_url tok) = Inr r \<and> \<not> ok r \<longrightarrow>
      fetchRepositories fetch tok = Inl (Error ''Failed to fetch repositories''))
   \<and> (fetch (workflows_url tok owner repo) = Inr r \<and> \<not> ok r \<longrightarrow>
      fetchWorkflows fetch tok owner repo = Inl (Error ''Failed to fetch workflows''))
   \<and> (fetch (logs_url tok owner repo wid) = Inr r \<and> \<not> ok r \<longrightarrow>
      fetchWorkflowLogs fetch tok owner repo wid = Inl (Error ''Failed to fetch workflow logs''))"
  by (simp add: fetchRepositories_def fetchWorkflows_def fetchWorkflowLogs_def bindE_def)

theorem failed_status_is_thrown_witness:
  "\<not> ok \<lparr>ok = False, json = Inr (JObj [])\<rparr>
   \<and> fetchRepositories (answering \<lparr>ok = False, json = Inr (JObj [])\<rparr>) ''token''
       = Inl (Error ''Failed to fetch repositories'')
   \<and> fetchWorkflows (answering \<lparr>ok = False, json = Inr (JObj [])\<rparr>) ''token'' ''owner'' ''repo''
       = Inl (Error ''Failed to fetch workflows'')
   \<and> fetchWorkflowLogs (answering \<lparr>ok = False, json = Inr (JObj [])\<rparr>)
         ''token'' ''owner'' ''repo'' ''42''
       = Inl (Error ''Failed to fetch workflow logs'')"
  using failed_status_is_thrown
    [of "answering \<lparr>ok = False, json = Inr (JObj [])\<rparr>" "''token''"
        "\<lparr>ok = False, json = Inr (JObj [])\<rparr>" "''owner''" "''repo''" "''42''"]
  by simp

subsection \<open>C9: fetchRepositories needs the array\<close>

text \<open>
  C9: on a successfully parsed body, \<^verbatim>\<open>fetchRepositories\<close> returns the elements of
  \<^verbatim>\<open>repoNames\<close> in order, each wrapped in a record, when the body is an object whose
  \<^verbatim>\<open>repoNames\<close> is an array; on every other body it throws a \<^verbatim>\<open>TypeError\<close>.
\<close>

theorem repositories_need_repoNames_array:
  assumes "responds fetch (repos_url tok) data"
  shows "(\<forall>kvs ns. data = JObj kvs \<and> map_of kvs ''repoNames'' = Some (JArr ns) \<longrightarrow>
            fetchRepositories fetch tok = Inr (map (\<lambda>n. \<lparr>repoName = n\<rparr>) ns))
       \<and> ((\<nexists>kvs ns. data = JObj kvs \<and> map_of kvs ''repoNames'' = Some (JArr ns)) \<longrightarrow>
            fetchRepositories fetch tok = Inl TypeError)"
proof (intro conjI allI impI)
  fix kvs ns
  assume "data = JObj kvs \<and> map_of kvs ''repoNames'' = Some (JArr ns)"
  then show "fetchRepositories fetch tok = Inr (map (\<lambda>n. \<lparr>repoName = n\<rparr>) ns)"
    by (simp add: fetchRepositories_responds [OF assms] bindE_def call_map_def map_wrap)
next
  assume none: "\<nexists>kvs ns. data = JObj kvs \<and> map_of kvs ''repoNames'' = Some (JArr ns)"
  show "fetchRepositories fetch tok = Inl TypeError"
  proof (cases data)
    case (JObj kvs)
    then have "\<forall>ns. map_of kvs ''repoNames'' \<noteq> Some (JArr ns)"
      using none by simp
    then show ?thesis using JObj
      by (auto simp: fetchRepositories_responds [OF assms] bindE_def call_map_def
               split: option.splits jsval.splits)
  qed (simp_all add: fetchRepositories_responds [OF assms] bindE_def call_map_def)
qed

theorem repositories_need_repoNames_array_witness:
  "responds (answering \<lparr>ok = True, json = Inr (JObj [(''repoNames'', JArr [JStr ''api'', JStr ''web''])])\<rparr>)
     (repos_url ''token'')
     (JObj [(''repoNames'', JArr [JStr ''api'', JStr ''web''])])
   \<and> fetchRepositories
       (answering \<lparr>ok = True, json = Inr (JObj [(''repoNames'', JArr [JStr ''api'', JStr ''web''])])\<rparr>)
       ''token''
     = Inr [\<lparr>repoName = JStr ''api''\<rparr>, \<lparr>repoName = JStr ''web''\<rparr>]
   \<and> responds (answering \<lparr>ok = True, json = Inr (JObj [(''message'', JStr ''none'')])\<rparr>)
       (repos_url ''token'') (JObj [(''message'', JStr ''none'')])
   \<and> fetchRepositories
       (answering \<lparr>ok = True, json = Inr (JObj [(''message'', JStr ''none'')])\<rparr>) ''token''
     = Inl TypeError"
proof -
  let ?d1 = "JObj [(''repoNames'', JArr [JStr ''api'', JStr ''web''])]"
  let ?f1 = "answering \<lparr>ok = True, json = Inr ?d1\<rparr>"
  let ?d2 = "JObj [(''message'', JStr ''none'')]"
  let ?f2 = "answering \<lparr>ok = True, json = Inr ?d2\<rparr>"
  have r1: "responds ?f1 (repos_url ''token'') ?d1" by (simp add: responds_def)
  have r2: "responds ?f2 (repos_url ''token'') ?d2" by (simp add: responds_def)
  have "fetchRepositories ?f1 ''token'' = Inr (map (\<lambda>n. \<lparr>repoName = n\<rparr>) [JStr ''api'', JStr ''web''])"
    using repositories_need_repoNames_array [OF r1] by simp
  moreover have "fetchRepositories ?f2 ''token'' = Inl TypeError"
    using repositories_need_repoNames_array [OF r2] by simp
  ultimately show ?thesis using r1 r2 by simp
qed

subsection \<open>C10: the type of an entry is never absent\<close>

text \<open>
  C10: every entry of every file that \<^verbatim>\<open>fetchWorkflowLogs\<close> returns has its \<^verbatim>\<open>type\<close>
  field defined, and the field is one of \<^verbatim>\<open>info\<close>, \<^verbatim>\<open>success\<close>, \<^verbatim>\<open>warning\<close> and
  \<^verbatim>\<open>error\<close>.
\<close>

theorem entry_type_defined:
  "fetchWorkflowLogs fetch tok owner repo wid = Inr lfs \<Longrightarrow>
   \<forall>lf\<in>set lfs. \<forall>e\<in>set (logs lf).
     type e \<in> {Some ''info'', Some ''success'', Some ''warning'', Some ''error''}"
proof -
  assume "fetchWorkflowLogs fetch tok owner repo wid = Inr lfs"
  then obtain data where "normalize data = Inr lfs"
    using fetchWorkflowLogs_Inr by blast
  then show ?thesis
  proof (rule normalize_all)
    fix c l t assume "detect_type l = Inr t"
    then have "t \<in> {''info'', ''success'', ''warning'', ''error''}"
      by (rule detect_type_range)
    then show "type \<lparr>message = l, type = Some t,
       category = (if c = ''SingleLogs'' then None else Some c)\<rparr>
       \<in> {Some ''info'', Some ''success'', Some ''warning'', Some ''error''}"
      by auto
  qed
qed

theorem entry_type_defined_witness:
  "fetchWorkflowLogs
     (answering \<lparr>ok = True, json = Inr (JObj [(''cleanedLogs'',
        JObj [(''build'', JObj [(''1_run.txt'',
          JObj [(''SingleLogs'', JArr [JStr ''Starting job''])])])])])\<rparr>)
     ''token'' ''owner'' ''repo'' ''42''
   = Inr [\<lparr>name = ''build/1_run.txt'',
           logs = [\<lparr>message = JStr ''Starting job'', type = Some ''info'',
                    category = None\<rparr>]\<rparr>]
   \<and> type \<lparr>message = JStr ''Starting job'', type = Some ''info'', category = None\<rparr>
       \<in> {Some ''info'', Some ''success'', Some ''warning'', Some ''error''}"
proof -
  let ?fetch = "answering \<lparr>ok = True, json = Inr (JObj [(''cleanedLogs'',
        JObj [(''build'', JObj [(''1_run.txt'',
          JObj [(''SingleLogs'', JArr [JStr ''Starting job''])])])])])\<rparr>"
  let ?e = "\<lparr>message = JStr ''Starting job'', type = Some ''info'', category = None\<rparr>"
  let ?lfs = "[\<lparr>name = ''build/1_run.txt'', logs = [?e]\<rparr>]"
  have run: "fetchWorkflowLogs ?fetch ''token'' ''owner'' ''repo'' ''42'' = Inr ?lfs"
    by (simp add: eval_defs sublist_code(3))
  have "\<forall>lf\<in>set ?lfs. \<forall>e\<in>set (logs lf).
          type e \<in> {Some ''info'', Some ''success'', Some ''warning'', Some ''error''}"
    using run by (rule entry_type_defined)
  then have "type ?e \<in> {Some ''info'', Some ''success'', Some ''warning'', Some ''error''}"
    by simp
  with run show ?thesis by blast
qed

end
